theory Spec2Isabelle
  imports Complex_Main "HOL-Library.Log_Nat" "HOL-Library.Multiset"
begin

section \<open>Compile-time integers and \<open>std::ratio\<close>\<close>

text \<open>
  Every exponent numerator, exponent denominator and prefix of \<open>mesitype.h\<close> is a
  template argument of type \<open>intmax_t\<close> (64 bits, two's complement). They are modelled
  as integers together with the range of the type. Arithmetic on them happens while the
  program is translated: a result outside the range makes the program ill-formed, which
  the model returns as the error \<open>Overflow\<close>. The one subtraction of two of them in the
  body of a function (in the prefix conversion) is undefined outside the range, and has
  the same error for its result.
\<close>

definition INTMAX_MAX :: int where
  "INTMAX_MAX = 9223372036854775807"

definition INTMAX_MIN :: int where
  "INTMAX_MIN = - 9223372036854775808"

definition representable :: "int \<Rightarrow> bool" where
  "representable x \<longleftrightarrow> INTMAX_MIN \<le> x \<and> x \<le> INTMAX_MAX"

text \<open>The seven base units, in the order of the macro \<open>ALL_UNITS\<close>.\<close>

datatype base_unit = Meter | Second | Kilogram | Ampere | Kelvin | Mole | Candela

definition ALL_UNITS :: "base_unit list" where
  "ALL_UNITS = [Meter, Second, Kilogram, Ampere, Kelvin, Mole, Candela]"

text \<open>
  What can go wrong: a failed \<open>static_assert\<close> of \<open>RationalTypeReduced\<close>, naming the
  unit; a \<open>std::ratio\<close> that is ill-formed by itself; a value of \<open>intmax_t\<close> outside the
  range; a call for which overload resolution finds no function (or an assignment for
  which no conversion exists); a fault of the storage type \<open>T\<close> while the program runs.
\<close>

datatype error =
    NotIrreducible base_unit
  | IllFormedRatio
  | Overflow
  | NoMatchingFunction
  | StorageFault

fun unit_name :: "base_unit \<Rightarrow> string" where
  "unit_name Meter = ''meter''"
| "unit_name Second = ''second''"
| "unit_name Kilogram = ''kilogram''"
| "unit_name Ampere = ''ampere''"
| "unit_name Kelvin = ''Kelvin''"
| "unit_name Mole = ''mole''"
| "unit_name Candela = ''candela''"

text \<open>The text of the failing \<open>static_assert\<close> of \<open>RationalTypeReduced\<close>.\<close>

definition static_assert_message :: "base_unit \<Rightarrow> string" where
  "static_assert_message u = ''The '' @ unit_name u @ '' exponent fraction is not irreducible''"

text \<open>Sequencing: the first error ends the evaluation.\<close>

definition and_then :: "error + 'a \<Rightarrow> ('a \<Rightarrow> error + 'b) \<Rightarrow> error + 'b" where
  "and_then r f = (case r of Inl e \<Rightarrow> Inl e | Inr x \<Rightarrow> f x)"

text \<open>
  \<open>std::ratio<N, D>\<close>: the program is ill-formed when \<open>D\<close> is zero or when the absolute
  value of \<open>N\<close> or \<open>D\<close> is not representable; otherwise the members \<open>num\<close> and
  \<open>den\<close> are \<open>sign(N) * sign(D) * abs(N) / gcd\<close> and \<open>abs(D) / gcd\<close>.
\<close>

definition ratio :: "int \<Rightarrow> int \<Rightarrow> error + (int \<times> int)" where
  "ratio N D =
     (if D \<noteq> 0 \<and> representable \<bar>N\<bar> \<and> representable \<bar>D\<bar>
      then Inr (sgn N * sgn D * (\<bar>N\<bar> div gcd N D), \<bar>D\<bar> div gcd N D)
      else Inl IllFormedRatio)"

text \<open>
  \<open>std::ratio_add<R1, R2>\<close> and \<open>std::ratio_subtract<R1, R2>\<close> of two \<open>std::ratio\<close>
  types: the fraction \<open>R1::num * R2::den \<plusminus> R2::num * R1::den\<close> over
  \<open>R1::den * R2::den\<close> in lowest terms, as another \<open>std::ratio\<close>; ill-formed when the
  result is not representable. (The standard lets an implementation also reject a result
  that is representable when the products on the way are not; the model is of an
  implementation that computes every representable result.)
\<close>

definition lowest :: "int \<Rightarrow> int \<Rightarrow> error + (int \<times> int)" where
  "lowest X Y =
     (let U = sgn X * sgn Y * (\<bar>X\<bar> div gcd X Y); V = \<bar>Y\<bar> div gcd X Y
      in if representable \<bar>U\<bar> \<and> representable \<bar>V\<bar> then Inr (U, V) else Inl Overflow)"

definition ratio_add :: "int \<times> int \<Rightarrow> int \<times> int \<Rightarrow> error + (int \<times> int)" where
  "ratio_add R1 R2 = lowest (fst R1 * snd R2 + fst R2 * snd R1) (snd R1 * snd R2)"

definition ratio_subtract :: "int \<times> int \<Rightarrow> int \<times> int \<Rightarrow> error + (int \<times> int)" where
  "ratio_subtract R1 R2 = lowest (fst R1 * snd R2 - fst R2 * snd R1) (snd R1 * snd R2)"

section \<open>The class template \<open>RationalTypeReduced\<close>\<close>

text \<open>
  The template arguments after \<open>T\<close>: seven exponents, each a pair \<open>(t_X_n, t_X_d)\<close> of
  numerator and denominator, and the prefix \<open>t_pref\<close>.
\<close>

record tag =
  t_m :: "int \<times> int"
  t_s :: "int \<times> int"
  t_kg :: "int \<times> int"
  t_A :: "int \<times> int"
  t_K :: "int \<times> int"
  t_mol :: "int \<times> int"
  t_cd :: "int \<times> int"
  t_pref :: int

fun exponent :: "tag \<Rightarrow> base_unit \<Rightarrow> int \<times> int" where
  "exponent t Meter = t_m t"
| "exponent t Second = t_s t"
| "exponent t Kilogram = t_kg t"
| "exponent t Ampere = t_A t"
| "exponent t Kelvin = t_K t"
| "exponent t Mole = t_mol t"
| "exponent t Candela = t_cd t"

text \<open>
  One \<open>static_assert(std::ratio<t_X_n, t_X_d>::num == t_X_n, "...")\<close>: the diagnostics
  it produces (none when it holds).
\<close>

definition static_assert_irreducible :: "base_unit \<Rightarrow> int \<times> int \<Rightarrow> error list" where
  "static_assert_irreducible u f =
     (case ratio (fst f) (snd f) of
        Inl e \<Rightarrow> [e]
      | Inr r \<Rightarrow> if fst r = fst f then [] else [NotIrreducible u])"

definition static_asserts :: "tag \<Rightarrow> error list" where
  "static_asserts t = concat (map (\<lambda>u. static_assert_irreducible u (exponent t u)) ALL_UNITS)"

text \<open>Instantiating \<open>RationalTypeReduced<T, ...>\<close> with the arguments \<open>t\<close>.\<close>

definition RationalTypeReduced :: "tag \<Rightarrow> error + tag" where
  "RationalTypeReduced t = (case static_asserts t of [] \<Rightarrow> Inr t | e # es \<Rightarrow> Inl e)"

text \<open>
  A fraction in lowest terms, as the comment of the class asks for (``Fractions must be
  reduced, i.e. the greatest common divisor of numerator and denominator must be 1''),
  with the denominator positive. The tag of a dimensionless type at prefix \<open>p\<close>.
\<close>

definition lowest_terms :: "int \<times> int \<Rightarrow> bool" where
  "lowest_terms f \<longleftrightarrow> gcd \<bar>fst f\<bar> (snd f) = 1 \<and> 0 < snd f"

definition dimensionless :: "int \<Rightarrow> tag" where
  "dimensionless p =
     \<lparr>t_m = (0, 1), t_s = (0, 1), t_kg = (0, 1), t_A = (0, 1), t_K = (0, 1),
      t_mol = (0, 1), t_cd = (0, 1), t_pref = p\<rparr>"

text \<open>
  The alias template \<open>RationalType\<close>: every exponent goes through \<open>std::ratio\<close>
  before \<open>RationalTypeReduced\<close> is instantiated.
\<close>

definition RationalType :: "tag \<Rightarrow> error + tag" where
  "RationalType t =
     and_then (ratio (fst (t_m t)) (snd (t_m t))) (\<lambda>m.
     and_then (ratio (fst (t_s t)) (snd (t_s t))) (\<lambda>s.
     and_then (ratio (fst (t_kg t)) (snd (t_kg t))) (\<lambda>kg.
     and_then (ratio (fst (t_A t)) (snd (t_A t))) (\<lambda>A.
     and_then (ratio (fst (t_K t)) (snd (t_K t))) (\<lambda>K.
     and_then (ratio (fst (t_mol t)) (snd (t_mol t))) (\<lambda>mol.
     and_then (ratio (fst (t_cd t)) (snd (t_cd t))) (\<lambda>cd.
     RationalTypeReduced
       \<lparr>t_m = m, t_s = s, t_kg = kg, t_A = A, t_K = K, t_mol = mol, t_cd = cd,
        t_pref = t_pref t\<rparr>)))))))"

text \<open>\<open>using ScalarType = RationalTypeReduced<T, 0, 1, ..., 0, 1, t_pref>\<close>.\<close>

definition ScalarType :: "tag \<Rightarrow> tag" where
  "ScalarType t = dimensionless (t_pref t)"

section \<open>The storage type \<open>T\<close>\<close>

text \<open>
  The templates use of \<open>T\<close> its operators \<open>+\<close>, \<open>-\<close>, \<open>*\<close>, \<open>/\<close>, unary \<open>-\<close>,
  \<open>==\<close>, \<open><\<close> and the literal \<open>10\<close>. An arithmetic operator of \<open>T\<close> may fault
  (division by zero or overflow of a signed integer): it then has no result.
\<close>

record 'a storage =
  s_add :: "'a \<Rightarrow> 'a \<Rightarrow> 'a option"
  s_sub :: "'a \<Rightarrow> 'a \<Rightarrow> 'a option"
  s_mul :: "'a \<Rightarrow> 'a \<Rightarrow> 'a option"
  s_div :: "'a \<Rightarrow> 'a \<Rightarrow> 'a option"
  s_neg :: "'a \<Rightarrow> 'a option"
  s_eq :: "'a \<Rightarrow> 'a \<Rightarrow> bool"
  s_lt :: "'a \<Rightarrow> 'a \<Rightarrow> bool"
  s_ten :: 'a

definition run :: "'a option \<Rightarrow> error + 'a" where
  "run r = (case r of None \<Rightarrow> Inl StorageFault | Some x \<Rightarrow> Inr x)"

text \<open>
  The storage type \<open>int\<close>: 32 bits, two's complement; a result outside the range and a
  division by zero are undefined; division truncates towards zero.
\<close>

definition INT_MAX :: int where
  "INT_MAX = 2147483647"

definition INT_MIN :: int where
  "INT_MIN = - 2147483648"

definition int_result :: "int \<Rightarrow> int option" where
  "int_result x = (if INT_MIN \<le> x \<and> x \<le> INT_MAX then Some x else None)"

definition truncating_div :: "int \<Rightarrow> int \<Rightarrow> int" where
  "truncating_div a b = sgn a * sgn b * (\<bar>a\<bar> div \<bar>b\<bar>)"

definition int_storage :: "int storage" where
  "int_storage =
     \<lparr>s_add = (\<lambda>a b. int_result (a + b)),
      s_sub = (\<lambda>a b. int_result (a - b)),
      s_mul = (\<lambda>a b. int_result (a * b)),
      s_div = (\<lambda>a b. if b = 0 then None else int_result (truncating_div a b)),
      s_neg = (\<lambda>a. int_result (- a)),
      s_eq = (\<lambda>a b. a = b),
      s_lt = (\<lambda>a b. a < b),
      s_ten = 10\<rparr>"

text \<open>
  The storage type \<open>float\<close>, the default: IEEE 754 binary32. A value is not a number
  (\<open>NaN\<close>), an infinity or a zero with its sign bit (\<open>True\<close> is negative), or
  \<open>Finite x\<close> for a number \<open>x\<close> other than zero of the format: plus or minus
  \<open>m * 2 ^ e\<close> with \<open>m < 2 ^ 24\<close> and \<open>- 149 \<le> e \<le> 104\<close> (\<open>is_binary32\<close> below).
\<close>

datatype binary32 = NaN | Infinity bool | Zero bool | Finite rat

text \<open>
  Rounding to nearest, ties to even, the rounding of every arithmetic operation:
  \<open>pow2 e\<close> is 2 to the power \<open>e\<close>, and \<open>floor_log2 r\<close> the exponent \<open>e\<close> with
  \<open>pow2 e \<le> r < pow2 (e + 1)\<close>; the numbers of the format around \<open>r\<close> are the multiples
  of \<open>pow2 (e - 23)\<close>, and those of \<open>pow2 (- 149)\<close> below the least normal number
  \<open>pow2 (- 126)\<close>; a result that rounds to \<open>pow2 128\<close> or more is an infinity, one that
  rounds to nothing a zero, both with the sign of \<open>r\<close>.
\<close>

definition pow2 :: "int \<Rightarrow> rat" where
  "pow2 e = (if 0 \<le> e then 2 ^ nat e else 1 / 2 ^ nat (- e))"

definition floor_log2 :: "rat \<Rightarrow> int" where
  "floor_log2 r =
     (let e = bitlen (fst (quotient_of r)) - bitlen (snd (quotient_of r))
      in if pow2 e \<le> r then e else e - 1)"

definition round_ties_even :: "rat \<Rightarrow> int" where
  "round_ties_even x =
     (let f = \<lfloor>x\<rfloor>; d = x - of_int f
      in if d < 1 / 2 then f else if 1 / 2 < d then f + 1 else if even f then f else f + 1)"

definition round_binary32 :: "rat \<Rightarrow> binary32" where
  "round_binary32 r =
     (let e = max (floor_log2 \<bar>r\<bar>) (- 126);
          q = pow2 (e - 23);
          n = round_ties_even (\<bar>r\<bar> / q);
          v = of_int n * q
      in if pow2 128 \<le> v then Infinity (r < 0)
         else if n = 0 then Zero (r < 0)
         else Finite (sgn r * v))"

text \<open>
  The values of the format: of the numbers, those other than zero below \<open>pow2 128\<close> in
  absolute value that are a multiple of the unit in the last place at their exponent.
\<close>

definition is_binary32 :: "binary32 \<Rightarrow> bool" where
  "is_binary32 a \<longleftrightarrow>
     (case a of
        Finite x \<Rightarrow>
          x \<noteq> 0 \<and> \<bar>x\<bar> < pow2 128 \<and>
          (let m = \<bar>x\<bar> / pow2 (max (floor_log2 \<bar>x\<bar>) (- 126) - 23) in of_int \<lfloor>m\<rfloor> = m)
      | _ \<Rightarrow> True)"

text \<open>
  The operations. \<open>NaN\<close> is handed on by every operation, and is the result of
  an infinity minus itself, of zero times an infinity, of zero by zero and of an infinity
  by an infinity. A number other than zero divided by zero is an infinity. The sign of a product or quotient is the exclusive or of the
  signs; a sum that is exactly zero is the positive zero, but the sum of two negative
  zeros is the negative zero. No operation faults.
\<close>

fun sign_bit :: "binary32 \<Rightarrow> bool" where
  "sign_bit NaN = False"
| "sign_bit (Infinity s) = s"
| "sign_bit (Zero s) = s"
| "sign_bit (Finite x) = (x < 0)"

fun number :: "binary32 \<Rightarrow> rat" where
  "number (Finite x) = x"
| "number _ = 0"

fun float_neg :: "binary32 \<Rightarrow> binary32" where
  "float_neg NaN = NaN"
| "float_neg (Infinity s) = Infinity (\<not> s)"
| "float_neg (Zero s) = Zero (\<not> s)"
| "float_neg (Finite x) = Finite (- x)"

fun float_add :: "binary32 \<Rightarrow> binary32 \<Rightarrow> binary32" where
  "float_add NaN b = NaN"
| "float_add a NaN = NaN"
| "float_add (Infinity s) (Infinity t) = (if s = t then Infinity s else NaN)"
| "float_add (Infinity s) b = Infinity s"
| "float_add a (Infinity t) = Infinity t"
| "float_add (Zero s) (Zero t) = Zero (s \<and> t)"
| "float_add (Zero s) (Finite y) = Finite y"
| "float_add (Finite x) (Zero t) = Finite x"
| "float_add (Finite x) (Finite y) = (if x + y = 0 then Zero False else round_binary32 (x + y))"

definition float_sub :: "binary32 \<Rightarrow> binary32 \<Rightarrow> binary32" where
  "float_sub a b = float_add a (float_neg b)"

fun float_mul :: "binary32 \<Rightarrow> binary32 \<Rightarrow> binary32" where
  "float_mul NaN b = NaN"
| "float_mul a NaN = NaN"
| "float_mul (Infinity s) (Zero t) = NaN"
| "float_mul (Zero s) (Infinity t) = NaN"
| "float_mul (Infinity s) b = Infinity (s \<noteq> sign_bit b)"
| "float_mul a (Infinity t) = Infinity (sign_bit a \<noteq> t)"
| "float_mul (Zero s) b = Zero (s \<noteq> sign_bit b)"
| "float_mul a (Zero t) = Zero (sign_bit a \<noteq> t)"
| "float_mul (Finite x) (Finite y) = round_binary32 (x * y)"

fun float_div :: "binary32 \<Rightarrow> binary32 \<Rightarrow> binary32" where
  "float_div NaN b = NaN"
| "float_div a NaN = NaN"
| "float_div (Infinity s) (Infinity t) = NaN"
| "float_div (Zero s) (Zero t) = NaN"
| "float_div (Infinity s) b = Infinity (s \<noteq> sign_bit b)"
| "float_div a (Infinity t) = Zero (sign_bit a \<noteq> t)"
| "float_div (Zero s) b = Zero (s \<noteq> sign_bit b)"
| "float_div a (Zero t) = Infinity (sign_bit a \<noteq> t)"
| "float_div (Finite x) (Finite y) = round_binary32 (x / y)"

text \<open>
  The comparisons: \<open>==\<close> and \<open><\<close> are false when an operand is \<open>NaN\<close>; the two zeros
  are equal; an infinity is equal to itself, and every number lies between the two.
\<close>

fun float_eq :: "binary32 \<Rightarrow> binary32 \<Rightarrow> bool" where
  "float_eq NaN b = False"
| "float_eq a NaN = False"
| "float_eq (Infinity s) (Infinity t) = (s = t)"
| "float_eq (Infinity s) b = False"
| "float_eq a (Infinity t) = False"
| "float_eq a b = (number a = number b)"

fun float_lt :: "binary32 \<Rightarrow> binary32 \<Rightarrow> bool" where
  "float_lt NaN b = False"
| "float_lt a NaN = False"
| "float_lt (Infinity s) (Infinity t) = (s \<and> \<not> t)"
| "float_lt (Infinity s) b = s"
| "float_lt a (Infinity t) = (\<not> t)"
| "float_lt a b = (number a < number b)"

definition float_storage :: "binary32 storage" where
  "float_storage =
     \<lparr>s_add = (\<lambda>a b. Some (float_add a b)),
      s_sub = (\<lambda>a b. Some (float_sub a b)),
      s_mul = (\<lambda>a b. Some (float_mul a b)),
      s_div = (\<lambda>a b. Some (float_div a b)),
      s_neg = (\<lambda>a. Some (float_neg a)),
      s_eq = float_eq,
      s_lt = float_lt,
      s_ten = Finite 10\<rparr>"

section \<open>Quantities and their operators\<close>

text \<open>
  An object of type \<open>RationalTypeReduced<T, ...>\<close>: the template arguments of its type
  and its only data member \<open>val\<close>.
\<close>

record 'a quantity =
  qtag :: tag
  val :: 'a

text \<open>The explicit constructor \<open>RationalTypeReduced(T const in)\<close>.\<close>

definition construct :: "tag \<Rightarrow> 'a \<Rightarrow> error + 'a quantity" where
  "construct t v = and_then (RationalTypeReduced t) (\<lambda>ty. Inr \<lparr>qtag = ty, val = v\<rparr>)"

text \<open>\<open>explicit operator T() const\<close>.\<close>

definition operator_T :: "'a quantity \<Rightarrow> 'a" where
  "operator_T q = val q"

text \<open>
  The conversion operator to the same exponents with prefix \<open>pref2\<close>. Its two loops, on
  the pair of \<open>nv\<close> and \<open>pref_diff\<close>:
\<close>

function while_positive :: "'a storage \<Rightarrow> 'a \<Rightarrow> int \<Rightarrow> error + ('a \<times> int)" where
  "while_positive T nv pref_diff =
     (if pref_diff > 0
      then (case s_mul T nv (s_ten T) of
              None \<Rightarrow> Inl StorageFault
            | Some nv' \<Rightarrow> while_positive T nv' (pref_diff - 1))
      else Inr (nv, pref_diff))"
  by pat_completeness auto
termination
  by (relation "measure (\<lambda>(T, nv, pref_diff). nat pref_diff)") auto

function while_negative :: "'a storage \<Rightarrow> 'a \<Rightarrow> int \<Rightarrow> error + ('a \<times> int)" where
  "while_negative T nv pref_diff =
     (if pref_diff < 0
      then (case s_div T nv (s_ten T) of
              None \<Rightarrow> Inl StorageFault
            | Some nv' \<Rightarrow> while_negative T nv' (pref_diff + 1))
      else Inr (nv, pref_diff))"
  by pat_completeness auto
termination
  by (relation "measure (\<lambda>(T, nv, pref_diff). nat (- pref_diff))") auto

declare while_positive.simps [simp del] while_negative.simps [simp del]

text \<open>Arithmetic on \<open>intmax_t\<close>; a result outside the range is an error.\<close>

definition intmax_add :: "int \<Rightarrow> int \<Rightarrow> error + int" where
  "intmax_add x y = (if representable (x + y) then Inr (x + y) else Inl Overflow)"

definition intmax_sub :: "int \<Rightarrow> int \<Rightarrow> error + int" where
  "intmax_sub x y = (if representable (x - y) then Inr (x - y) else Inl Overflow)"

definition convert :: "'a storage \<Rightarrow> 'a quantity \<Rightarrow> int \<Rightarrow> error + 'a quantity" where
  "convert T q pref2 =
     and_then (intmax_sub (t_pref (qtag q)) pref2) (\<lambda>pref_diff.
     and_then (while_positive T (val q) pref_diff) (\<lambda>(nv, pref_diff).
     and_then (while_negative T nv pref_diff) (\<lambda>(nv, pref_diff).
     Inr \<lparr>qtag = (qtag q)\<lparr>t_pref := pref2\<rparr>, val = nv\<rparr>)))"

text \<open>Binary \<open>operator+\<close> and \<open>operator-\<close>: both operands of one and the same type.\<close>

definition operator_plus :: "'a storage \<Rightarrow> 'a quantity \<Rightarrow> 'a quantity \<Rightarrow> error + 'a quantity" where
  "operator_plus T left right =
     (if qtag left = qtag right
      then and_then (run (s_add T (val left) (val right))) (\<lambda>v. Inr \<lparr>qtag = qtag left, val = v\<rparr>)
      else Inl NoMatchingFunction)"

definition operator_minus :: "'a storage \<Rightarrow> 'a quantity \<Rightarrow> 'a quantity \<Rightarrow> error + 'a quantity" where
  "operator_minus T left right =
     (if qtag left = qtag right
      then and_then (run (s_sub T (val left) (val right))) (\<lambda>v. Inr \<lparr>qtag = qtag left, val = v\<rparr>)
      else Inl NoMatchingFunction)"

text \<open>
  \<open>operator*\<close> and \<open>operator/\<close> of two quantities. \<open>ADD_FRAC\<close> and \<open>SUB_FRAC\<close> are the
  macros of the source, \<open>for_ALL_UNITS\<close> is \<open>ALL_UNITS(...)\<close> followed by the
  \<open>RationalType\<close> of the return statement.
\<close>

definition ADD_FRAC :: "int \<times> int \<Rightarrow> int \<times> int \<Rightarrow> error + (int \<times> int)" where
  "ADD_FRAC a b =
     and_then (ratio (fst a) (snd a)) (\<lambda>R1.
     and_then (ratio (fst b) (snd b)) (\<lambda>R2. ratio_add R1 R2))"

definition SUB_FRAC :: "int \<times> int \<Rightarrow> int \<times> int \<Rightarrow> error + (int \<times> int)" where
  "SUB_FRAC a b =
     and_then (ratio (fst a) (snd a)) (\<lambda>R1.
     and_then (ratio (fst b) (snd b)) (\<lambda>R2. ratio_subtract R1 R2))"

definition for_ALL_UNITS ::
    "(int \<times> int \<Rightarrow> int \<times> int \<Rightarrow> error + (int \<times> int)) \<Rightarrow> tag \<Rightarrow> tag \<Rightarrow> int \<Rightarrow> error + tag" where
  "for_ALL_UNITS FRAC a b pref =
     and_then (FRAC (t_m a) (t_m b)) (\<lambda>m.
     and_then (FRAC (t_s a) (t_s b)) (\<lambda>s.
     and_then (FRAC (t_kg a) (t_kg b)) (\<lambda>kg.
     and_then (FRAC (t_A a) (t_A b)) (\<lambda>A.
     and_then (FRAC (t_K a) (t_K b)) (\<lambda>K.
     and_then (FRAC (t_mol a) (t_mol b)) (\<lambda>mol.
     and_then (FRAC (t_cd a) (t_cd b)) (\<lambda>cd.
     RationalType
       \<lparr>t_m = m, t_s = s, t_kg = kg, t_A = A, t_K = K, t_mol = mol, t_cd = cd,
        t_pref = pref\<rparr>)))))))"

text \<open>The return types of \<open>operator*\<close> and \<open>operator/\<close>.\<close>

definition times_type :: "tag \<Rightarrow> tag \<Rightarrow> error + tag" where
  "times_type a b =
     and_then (intmax_add (t_pref a) (t_pref b)) (\<lambda>pref. for_ALL_UNITS ADD_FRAC a b pref)"

definition divide_type :: "tag \<Rightarrow> tag \<Rightarrow> error + tag" where
  "divide_type a b =
     and_then (intmax_sub (t_pref a) (t_pref b)) (\<lambda>pref. for_ALL_UNITS SUB_FRAC a b pref)"

definition operator_times :: "'a storage \<Rightarrow> 'a quantity \<Rightarrow> 'a quantity \<Rightarrow> error + 'a quantity" where
  "operator_times T left right =
     and_then (times_type (qtag left) (qtag right)) (\<lambda>ty.
     and_then (run (s_mul T (val left) (val right))) (\<lambda>v. Inr \<lparr>qtag = ty, val = v\<rparr>))"

definition operator_divide :: "'a storage \<Rightarrow> 'a quantity \<Rightarrow> 'a quantity \<Rightarrow> error + 'a quantity" where
  "operator_divide T left right =
     and_then (divide_type (qtag left) (qtag right)) (\<lambda>ty.
     and_then (run (s_div T (val left) (val right))) (\<lambda>v. Inr \<lparr>qtag = ty, val = v\<rparr>))"

text \<open>Unary \<open>operator-\<close> and \<open>operator+\<close>.\<close>

definition operator_negate :: "'a storage \<Rightarrow> 'a quantity \<Rightarrow> error + 'a quantity" where
  "operator_negate T op =
     and_then (run (s_neg T (val op))) (\<lambda>v. Inr \<lparr>qtag = qtag op, val = v\<rparr>)"

definition operator_unary_plus :: "'a quantity \<Rightarrow> error + 'a quantity" where
  "operator_unary_plus op = Inr \<lparr>qtag = qtag op, val = val op\<rparr>"

text \<open>
  The operators with a bare number, here of type \<open>S = T\<close>: quantity times number, number
  times quantity, quantity by number, number by quantity.
\<close>

definition operator_times_scalar :: "'a storage \<Rightarrow> 'a quantity \<Rightarrow> 'a \<Rightarrow> error + 'a quantity" where
  "operator_times_scalar T left right =
     and_then (run (s_mul T (val left) right)) (\<lambda>v. Inr \<lparr>qtag = qtag left, val = v\<rparr>)"

definition scalar_times_operator :: "'a storage \<Rightarrow> 'a \<Rightarrow> 'a quantity \<Rightarrow> error + 'a quantity" where
  "scalar_times_operator T left right = operator_times_scalar T right left"

definition operator_divide_scalar :: "'a storage \<Rightarrow> 'a quantity \<Rightarrow> 'a \<Rightarrow> error + 'a quantity" where
  "operator_divide_scalar T left right =
     operator_divide T left \<lparr>qtag = ScalarType (qtag left), val = right\<rparr>"

definition scalar_divide_operator :: "'a storage \<Rightarrow> 'a \<Rightarrow> 'a quantity \<Rightarrow> error + 'a quantity" where
  "scalar_divide_operator T left right =
     operator_divide T \<lparr>qtag = ScalarType (qtag right), val = left\<rparr> right"

text \<open>The comparison operators: both operands of one and the same type.\<close>

definition operator_eq :: "'a storage \<Rightarrow> 'a quantity \<Rightarrow> 'a quantity \<Rightarrow> error + bool" where
  "operator_eq T left right =
     (if qtag left = qtag right then Inr (s_eq T (val left) (val right))
      else Inl NoMatchingFunction)"

definition operator_lt :: "'a storage \<Rightarrow> 'a quantity \<Rightarrow> 'a quantity \<Rightarrow> error + bool" where
  "operator_lt T left right =
     (if qtag left = qtag right then Inr (s_lt T (val left) (val right))
      else Inl NoMatchingFunction)"

definition operator_ne :: "'a storage \<Rightarrow> 'a quantity \<Rightarrow> 'a quantity \<Rightarrow> error + bool" where
  "operator_ne T left right = and_then (operator_eq T right left) (\<lambda>e. Inr (\<not> e))"

definition operator_le :: "'a storage \<Rightarrow> 'a quantity \<Rightarrow> 'a quantity \<Rightarrow> error + bool" where
  "operator_le T left right =
     and_then (operator_lt T left right) (\<lambda>l.
     and_then (operator_eq T left right) (\<lambda>e. Inr (l \<or> e)))"

definition operator_gt :: "'a storage \<Rightarrow> 'a quantity \<Rightarrow> 'a quantity \<Rightarrow> error + bool" where
  "operator_gt T left right = operator_lt T right left"

definition operator_ge :: "'a storage \<Rightarrow> 'a quantity \<Rightarrow> 'a quantity \<Rightarrow> error + bool" where
  "operator_ge T left right =
     and_then (operator_gt T left right) (\<lambda>g.
     and_then (operator_eq T left right) (\<lambda>e. Inr (g \<or> e)))"

text \<open>
  The compound assignments, members of the class. \<open>(*this) = e\<close> is the copy assignment,
  for an expression \<open>e\<close> of type \<open>ty\<close> and value \<open>x\<close>: no implicit conversion leads from
  another instantiation to the type of \<open>*this\<close> (the converting constructor and the
  conversion operators are \<open>explicit\<close>), and the compiler finds that out before the
  program runs.
\<close>

definition assign :: "'a quantity \<Rightarrow> error + tag \<Rightarrow> error + 'a quantity \<Rightarrow> error + 'a quantity" where
  "assign this ty x =
     and_then ty (\<lambda>ty. if ty = qtag this then x else Inl NoMatchingFunction)"

definition operator_plus_assign ::
    "'a storage \<Rightarrow> 'a quantity \<Rightarrow> 'a quantity \<Rightarrow> error + 'a quantity" where
  "operator_plus_assign T this rhs =
     (if qtag rhs = qtag this then assign this (Inr (qtag this)) (operator_plus T this rhs)
      else Inl NoMatchingFunction)"

definition operator_minus_assign ::
    "'a storage \<Rightarrow> 'a quantity \<Rightarrow> 'a quantity \<Rightarrow> error + 'a quantity" where
  "operator_minus_assign T this rhs =
     (if qtag rhs = qtag this then assign this (Inr (qtag this)) (operator_minus T this rhs)
      else Inl NoMatchingFunction)"

definition operator_times_assign :: "'a storage \<Rightarrow> 'a quantity \<Rightarrow> 'a \<Rightarrow> error + 'a quantity" where
  "operator_times_assign T this rhs =
     assign this (Inr (qtag this)) (operator_times_scalar T this rhs)"

definition operator_divide_assign :: "'a storage \<Rightarrow> 'a quantity \<Rightarrow> 'a \<Rightarrow> error + 'a quantity" where
  "operator_divide_assign T this rhs =
     assign this (divide_type (qtag this) (ScalarType (qtag this)))
       (operator_divide_scalar T this rhs)"

definition operator_times_assign_Scalar ::
    "'a storage \<Rightarrow> 'a quantity \<Rightarrow> 'a quantity \<Rightarrow> error + 'a quantity" where
  "operator_times_assign_Scalar T this rhs =
     (if qtag rhs = ScalarType (qtag this)
      then assign this (times_type (qtag this) (qtag rhs)) (operator_times T this rhs)
      else Inl NoMatchingFunction)"

definition operator_divide_assign_Scalar ::
    "'a storage \<Rightarrow> 'a quantity \<Rightarrow> 'a quantity \<Rightarrow> error + 'a quantity" where
  "operator_divide_assign_Scalar T this rhs =
     (if qtag rhs = ScalarType (qtag this)
      then assign this (divide_type (qtag this) (qtag rhs)) (operator_divide T this rhs)
      else Inl NoMatchingFunction)"

text \<open>The alias template \<open>Type\<close>, and the named types \<open>Meters\<close> and \<open>MetersSq\<close>.\<close>

definition Type :: "int \<Rightarrow> int \<Rightarrow> int \<Rightarrow> int \<Rightarrow> int \<Rightarrow> int \<Rightarrow> int \<Rightarrow> int \<Rightarrow> error + tag" where
  "Type m s kg A K mol cd pref =
     RationalType
       \<lparr>t_m = (m, 1), t_s = (s, 1), t_kg = (kg, 1), t_A = (A, 1), t_K = (K, 1),
        t_mol = (mol, 1), t_cd = (cd, 1), t_pref = pref\<rparr>"

definition Meters :: "error + tag" where
  "Meters = Type 1 0 0 0 0 0 0 0"

definition MetersSq :: "error + tag" where
  "MetersSq = and_then Meters (\<lambda>M. times_type M M)"

text \<open>
  An expression that chains \<open>operator*\<close> and \<open>operator/\<close> over operands of given types,
  as the declarations of the derived units do, and its type (\<open>decltype\<close>): that of an
  operand is its instantiation of \<open>RationalTypeReduced\<close>, that of a product or quotient
  the return type of the operator for the types of its two operand expressions, if
  those exist. \<open>operands\<close> lists the types of the operands from left to right, and
  \<open>signed_operands\<close> tells of each whether the expression divides by it (an operand is
  a divisor when it stands in the right operand of an odd number of divisions).
\<close>

datatype chain = Operand tag | Times chain chain | Divide chain chain

fun chain_type :: "chain \<Rightarrow> error + tag" where
  "chain_type (Operand t) = RationalTypeReduced t"
| "chain_type (Times x y) =
     and_then (chain_type x) (\<lambda>a. and_then (chain_type y) (\<lambda>b. times_type a b))"
| "chain_type (Divide x y) =
     and_then (chain_type x) (\<lambda>a. and_then (chain_type y) (\<lambda>b. divide_type a b))"

fun operands :: "chain \<Rightarrow> tag list" where
  "operands (Operand t) = [t]"
| "operands (Times x y) = operands x @ operands y"
| "operands (Divide x y) = operands x @ operands y"

fun signed_operands :: "chain \<Rightarrow> (bool \<times> tag) list" where
  "signed_operands (Operand t) = [(False, t)]"
| "signed_operands (Times x y) = signed_operands x @ signed_operands y"
| "signed_operands (Divide x y) =
     signed_operands x @ map (\<lambda>(d, t). (\<not> d, t)) (signed_operands y)"

text \<open>
  \<open>using Seconds = Type<float, 0, 1, 0>\<close>, \<open>using Kilograms = Type<float, 0, 0, 1>\<close> and
  \<open>using Newtons = decltype(Meters{} * Kilograms{} / Seconds{} / Seconds{})\<close>.
\<close>

definition Seconds :: "error + tag" where
  "Seconds = Type 0 1 0 0 0 0 0 0"

definition Kilograms :: "error + tag" where
  "Kilograms = Type 0 0 1 0 0 0 0 0"

definition Newtons :: "error + tag" where
  "Newtons =
     and_then Meters (\<lambda>M. and_then Kilograms (\<lambda>Kg. and_then Seconds (\<lambda>S.
       chain_type (Divide (Divide (Times (Operand M) (Operand Kg)) (Operand S)) (Operand S)))))"

section \<open>Notions of the specification\<close>

text \<open>
  The value of an exponent as a rational number, and whether a pair of numerator and
  denominator can be a pair of \<open>std::ratio\<close> members.
\<close>

definition fits :: "int \<times> int \<Rightarrow> bool" where
  "fits f \<longleftrightarrow> representable \<bar>fst f\<bar> \<and> representable \<bar>snd f\<bar>"

definition rat_of :: "int \<times> int \<Rightarrow> rat" where
  "rat_of f = Fract (fst f) (snd f)"

text \<open>
  The fraction arithmetic in the words of the specification: \<open>reduce\<close> moves the sign
  into the numerator and divides both by their greatest common divisor; \<open>addFrac\<close> and
  \<open>subFrac\<close> are \<open>a/b \<plusminus> c/d = (ad \<plusminus> cb)/(bd)\<close>, then \<open>reduce\<close>.
\<close>

definition reduce :: "int \<times> int \<Rightarrow> int \<times> int" where
  "reduce f =
     (let g = gcd (fst f) (snd f)
      in if snd f < 0 then ((- fst f) div g, (- snd f) div g) else (fst f div g, snd f div g))"

definition addFrac :: "int \<times> int \<Rightarrow> int \<times> int \<Rightarrow> int \<times> int" where
  "addFrac a b = reduce (fst a * snd b + fst b * snd a, snd a * snd b)"

definition subFrac :: "int \<times> int \<Rightarrow> int \<times> int \<Rightarrow> int \<times> int" where
  "subFrac a b = reduce (fst a * snd b - fst b * snd a, snd a * snd b)"

text \<open>
  Rescaling by repeated multiplication or division by ten: \<open>iterate n f\<close> applies a
  step that may fault \<open>n\<close> times; \<open>rescale T k\<close> multiplies \<open>k\<close> times by ten when
  \<open>k\<close> is not negative and divides \<open>- k\<close> times by ten otherwise.
\<close>

fun iterate :: "nat \<Rightarrow> ('a \<Rightarrow> 'a option) \<Rightarrow> 'a \<Rightarrow> 'a option" where
  "iterate 0 f x = Some x"
| "iterate (Suc n) f x = (case f x of None \<Rightarrow> None | Some y \<Rightarrow> iterate n f y)"

definition rescale :: "'a storage \<Rightarrow> int \<Rightarrow> 'a \<Rightarrow> 'a option" where
  "rescale T k v =
     (if 0 \<le> k then iterate (nat k) (\<lambda>x. s_mul T x (s_ten T)) v
      else iterate (nat (- k)) (\<lambda>x. s_div T x (s_ten T)) v)"

text \<open>The template arguments of a type that exists: all seven assertions hold.\<close>

definition instantiable :: "tag \<Rightarrow> bool" where
  "instantiable t \<longleftrightarrow> static_asserts t = []"

text \<open>
  The combination of two dimension vectors with their prefixes in the words of the
  specification: component-wise \<open>addFrac\<close> and the sum of the prefixes under
  multiplication, component-wise \<open>subFrac\<close> and the difference of the prefixes under
  division.
\<close>

definition combine_under_multiply :: "tag \<Rightarrow> tag \<Rightarrow> tag" where
  "combine_under_multiply D1 D2 =
     \<lparr>t_m = addFrac (t_m D1) (t_m D2), t_s = addFrac (t_s D1) (t_s D2),
      t_kg = addFrac (t_kg D1) (t_kg D2), t_A = addFrac (t_A D1) (t_A D2),
      t_K = addFrac (t_K D1) (t_K D2), t_mol = addFrac (t_mol D1) (t_mol D2),
      t_cd = addFrac (t_cd D1) (t_cd D2), t_pref = t_pref D1 + t_pref D2\<rparr>"

definition combine_under_divide :: "tag \<Rightarrow> tag \<Rightarrow> tag" where
  "combine_under_divide D1 D2 =
     \<lparr>t_m = subFrac (t_m D1) (t_m D2), t_s = subFrac (t_s D1) (t_s D2),
      t_kg = subFrac (t_kg D1) (t_kg D2), t_A = subFrac (t_A D1) (t_A D2),
      t_K = subFrac (t_K D1) (t_K D2), t_mol = subFrac (t_mol D1) (t_mol D2),
      t_cd = subFrac (t_cd D1) (t_cd D2), t_pref = t_pref D1 - t_pref D2\<rparr>"

text \<open>
  Template arguments that the compile-time arithmetic can hold: the prefix within the
  range of \<open>intmax_t\<close>, and the numerator and the denominator of every exponent of
  absolute value within it, as \<open>std::ratio\<close> requires (\<open>INTMAX_MIN\<close>, whose absolute
  value is \<open>INTMAX_MAX + 1\<close>, is not among them).
\<close>

definition tag_representable :: "tag \<Rightarrow> bool" where
  "tag_representable t \<longleftrightarrow>
     representable (t_pref t) \<and> list_all (\<lambda>u. fits (exponent t u)) ALL_UNITS"

text \<open>
  Two types are compatible when their exponents are the same unit by unit and their
  prefixes are the same.
\<close>

definition compatible :: "tag \<Rightarrow> tag \<Rightarrow> bool" where
  "compatible s t \<longleftrightarrow>
     list_all (\<lambda>u. exponent s u = exponent t u) ALL_UNITS \<and> t_pref s = t_pref t"

text \<open>
  A set of values of the storage type among which \<open>==\<close> is an equivalence and \<open><\<close> a
  strict total order with respect to it.
\<close>

definition ordered_values :: "'a storage \<Rightarrow> 'a set \<Rightarrow> bool" where
  "ordered_values T V \<longleftrightarrow>
     (\<forall>x\<in>V. s_eq T x x) \<and>
     (\<forall>x\<in>V. \<forall>y\<in>V. s_eq T x y \<longrightarrow> s_eq T y x) \<and>
     (\<forall>x\<in>V. \<forall>y\<in>V. \<forall>z\<in>V. s_eq T x y \<and> s_eq T y z \<longrightarrow> s_eq T x z) \<and>
     (\<forall>x\<in>V. \<not> s_lt T x x) \<and>
     (\<forall>x\<in>V. \<forall>y\<in>V. \<forall>z\<in>V. s_lt T x y \<and> s_lt T y z \<longrightarrow> s_lt T x z) \<and>
     (\<forall>x\<in>V. \<forall>y\<in>V. s_lt T x y \<longrightarrow> \<not> s_eq T x y) \<and>
     (\<forall>x\<in>V. \<forall>y\<in>V. s_lt T x y \<or> s_eq T x y \<or> s_lt T y x)"

text \<open>The template arguments of a type all of whose exponents are in lowest terms.\<close>

definition reduced_tag :: "tag \<Rightarrow> bool" where
  "reduced_tag t \<longleftrightarrow>
     representable (t_pref t) \<and>
     list_all (\<lambda>u. lowest_terms (exponent t u) \<and> fits (exponent t u)) ALL_UNITS"

text \<open>
  The type of a chain in the words of the specification: \<open>chain_tag\<close> combines the
  dimension vectors and prefixes of the operands step by step, \<open>chain_representable\<close>
  says that every intermediate result and the final one are within the range of the
  compile-time arithmetic, and \<open>total_exponent\<close> and \<open>total_prefix\<close> are the exponent of a
  unit and the prefix summed over the operands, those of a divisor counted negative.
\<close>

fun chain_tag :: "chain \<Rightarrow> tag" where
  "chain_tag (Operand t) = t"
| "chain_tag (Times x y) = combine_under_multiply (chain_tag x) (chain_tag y)"
| "chain_tag (Divide x y) = combine_under_divide (chain_tag x) (chain_tag y)"

fun chain_representable :: "chain \<Rightarrow> bool" where
  "chain_representable (Operand t) = True"
| "chain_representable (Times x y) \<longleftrightarrow>
     chain_representable x \<and> chain_representable y \<and>
     tag_representable (combine_under_multiply (chain_tag x) (chain_tag y))"
| "chain_representable (Divide x y) \<longleftrightarrow>
     chain_representable x \<and> chain_representable y \<and>
     tag_representable (combine_under_divide (chain_tag x) (chain_tag y))"

definition total_exponent :: "chain \<Rightarrow> base_unit \<Rightarrow> rat" where
  "total_exponent e u =
     (\<Sum>(d, t)\<leftarrow>signed_operands e. if d then - rat_of (exponent t u) else rat_of (exponent t u))"

definition total_prefix :: "chain \<Rightarrow> int" where
  "total_prefix e = (\<Sum>(d, t)\<leftarrow>signed_operands e. if d then - t_pref t else t_pref t)"

section \<open>Properties\<close>

subsection \<open>\<open>std::ratio\<close> computes the reduced fraction\<close>

lemma sgn_abs_div:
  fixes n g :: int
  assumes "g dvd n"
  shows "sgn n * (\<bar>n\<bar> div g) = n div g"
proof (cases "n < 0")
  case True
  then show ?thesis using assms by (simp add: dvd_neg_div)
next
  case False
  then show ?thesis by (cases "n = 0") simp_all
qed

lemma std_ratio_normalize:
  assumes "D \<noteq> 0"
  shows "(sgn N * sgn D * (\<bar>N\<bar> div gcd N D), \<bar>D\<bar> div gcd N D) = Rat.normalize (N, D)"
proof (cases "0 < D")
  case True
  then show ?thesis
    using sgn_abs_div [of "gcd N D" N] by (simp add: Rat.normalize_def Let_def)
next
  case False
  with assms have neg: "D < 0" by simp
  have "sgn N * sgn D * (\<bar>N\<bar> div gcd N D) = - (sgn N * (\<bar>N\<bar> div gcd N D))"
    using neg by simp
  also have "\<dots> = - (N div gcd N D)"
    using sgn_abs_div [of "gcd N D" N] by simp
  finally have num: "sgn N * sgn D * (\<bar>N\<bar> div gcd N D) = N div - gcd N D"
    by (simp add: dvd_div_neg)
  have den: "\<bar>D\<bar> div gcd N D = D div - gcd N D"
    using neg by (simp add: dvd_div_neg dvd_neg_div)
  show ?thesis
    using neg num den by (simp add: Rat.normalize_def Let_def)
qed

lemma std_ratio_quotient_of:
  "D \<noteq> 0 \<Longrightarrow>
     (sgn N * sgn D * (\<bar>N\<bar> div gcd N D), \<bar>D\<bar> div gcd N D) = quotient_of (Fract N D)"
  using std_ratio_normalize [of D N] by (simp add: quotient_of_Fract)

lemma reduce_quotient_of:
  assumes "snd f \<noteq> 0"
  shows "reduce f = quotient_of (rat_of f)"
proof -
  obtain n d where f: "f = (n, d)" by (cases f)
  have "reduce (n, d) = Rat.normalize (n, d)"
    using assms f
    by (auto simp: reduce_def Rat.normalize_def Let_def dvd_div_neg dvd_neg_div)
  then show ?thesis by (simp add: f rat_of_def quotient_of_Fract)
qed

lemma rat_of_quotient_of [simp]: "rat_of (quotient_of r) = r"
  by (simp add: rat_of_def)

lemma addFrac_quotient_of:
  "snd a \<noteq> 0 \<Longrightarrow> snd b \<noteq> 0 \<Longrightarrow> addFrac a b = quotient_of (rat_of a + rat_of b)"
  by (simp add: addFrac_def reduce_quotient_of) (simp add: rat_of_def)

lemma subFrac_quotient_of:
  "snd a \<noteq> 0 \<Longrightarrow> snd b \<noteq> 0 \<Longrightarrow> subFrac a b = quotient_of (rat_of a - rat_of b)"
  by (simp add: subFrac_def reduce_quotient_of) (simp add: rat_of_def)

lemma representable_abs: "representable \<bar>x\<bar> \<longleftrightarrow> \<bar>x\<bar> \<le> INTMAX_MAX"
  by (auto simp: representable_def INTMAX_MIN_def)

lemma abs_div_gcd_le:
  fixes N D :: int
  assumes "D \<noteq> 0"
  shows "\<bar>N\<bar> div gcd N D \<le> \<bar>N\<bar>" and "\<bar>D\<bar> div gcd N D \<le> \<bar>D\<bar>"
proof -
  have g: "0 < gcd N D" using assms by simp
  show "\<bar>N\<bar> div gcd N D \<le> \<bar>N\<bar>"
    using zdiv_mono2 [of "\<bar>N\<bar>" 1 "gcd N D"] g by simp
  show "\<bar>D\<bar> div gcd N D \<le> \<bar>D\<bar>"
    using zdiv_mono2 [of "\<bar>D\<bar>" 1 "gcd N D"] g by simp
qed

lemma ratio_fits:
  assumes "ratio N D = Inr r"
  shows "fits r" and "r = quotient_of (Fract N D)" and "D \<noteq> 0"
proof -
  from assms have c: "D \<noteq> 0" "representable \<bar>N\<bar>" "representable \<bar>D\<bar>"
    and r: "r = (sgn N * sgn D * (\<bar>N\<bar> div gcd N D), \<bar>D\<bar> div gcd N D)"
    by (auto simp: ratio_def split: if_splits)
  have g: "0 < gcd N D" using c by simp
  have nn: "0 \<le> \<bar>N\<bar> div gcd N D" "0 \<le> \<bar>D\<bar> div gcd N D"
    using g by (simp_all add: pos_imp_zdiv_nonneg_iff)
  have "\<bar>sgn N * sgn D * (\<bar>N\<bar> div gcd N D)\<bar> = \<bar>sgn N\<bar> * \<bar>sgn D\<bar> * (\<bar>N\<bar> div gcd N D)"
    using nn by (simp add: abs_mult)
  also have "\<dots> \<le> \<bar>N\<bar> div gcd N D"
    using nn by (simp add: abs_sgn_eq)
  finally have "\<bar>sgn N * sgn D * (\<bar>N\<bar> div gcd N D)\<bar> \<le> \<bar>N\<bar> div gcd N D" .
  then have U: "\<bar>sgn N * sgn D * (\<bar>N\<bar> div gcd N D)\<bar> \<le> INTMAX_MAX"
    using abs_div_gcd_le(1) [OF c(1), of N] c(2) unfolding representable_abs by linarith
  have V: "\<bar>\<bar>D\<bar> div gcd N D\<bar> \<le> INTMAX_MAX"
    using abs_div_gcd_le(2) [OF c(1), of N] c(3) nn(2) unfolding representable_abs by linarith
  show "fits r"
    unfolding fits_def r fst_conv snd_conv representable_abs using U V by blast
  show "r = quotient_of (Fract N D)"
    using r c std_ratio_quotient_of by simp
  show "D \<noteq> 0" by fact
qed


lemma ratio_eq:
  "ratio N D =
     (if D \<noteq> 0 \<and> representable \<bar>N\<bar> \<and> representable \<bar>D\<bar>
      then Inr (quotient_of (Fract N D)) else Inl IllFormedRatio)"
  by (simp add: ratio_def std_ratio_quotient_of)

subsection \<open>The assertions of \<open>RationalTypeReduced\<close>\<close>

text \<open>
  One assertion holds exactly when the exponent is a well-formed \<open>std::ratio\<close> and
  either its numerator is zero or it is in lowest terms.
\<close>

lemma static_assert_irreducible_accepts:
  "static_assert_irreducible u (n, d) = [] \<longleftrightarrow>
     d \<noteq> 0 \<and> representable \<bar>n\<bar> \<and> representable \<bar>d\<bar> \<and> (n = 0 \<or> lowest_terms (n, d))"
proof (cases "d = 0 \<or> \<not> representable \<bar>n\<bar> \<or> \<not> representable \<bar>d\<bar>")
  case True
  then show ?thesis
    by (auto simp: static_assert_irreducible_def ratio_def)
next
  case False
  show ?thesis
  proof (cases "n = 0")
    case True
    with False show ?thesis
      by (simp add: static_assert_irreducible_def ratio_def)
  next
    case n: False
    have g: "0 < gcd n d" using n by simp
    have dvd: "gcd n d dvd \<bar>n\<bar>" by simp
    have "sgn n * sgn d * (\<bar>n\<bar> div gcd n d) = n \<longleftrightarrow> gcd n d = 1 \<and> 0 < d"
    proof
      assume eq: "sgn n * sgn d * (\<bar>n\<bar> div gcd n d) = n"
      then have "\<bar>sgn n * sgn d * (\<bar>n\<bar> div gcd n d)\<bar> = \<bar>n\<bar>" by simp
      moreover have "0 \<le> \<bar>n\<bar> div gcd n d"
        using g by (simp add: pos_imp_zdiv_nonneg_iff)
      ultimately have "\<bar>n\<bar> div gcd n d = \<bar>n\<bar>"
        using n False by (simp add: abs_mult abs_sgn_eq)
      then have "\<bar>n\<bar> = \<bar>n\<bar> * gcd n d"
        using dvd by (metis dvd_div_mult_self mult.commute dvd_mult_div_cancel)
      then have g1: "gcd n d = 1" using n by simp
      with eq have "sgn n * sgn d * \<bar>n\<bar> = n" by simp
      then have "sgn d = 1"
        using n by (cases "0 < n"; cases "0 < d"; simp add: sgn_if split: if_splits)
      then have "0 < d" by (simp add: sgn_if split: if_splits)
      with g1 show "gcd n d = 1 \<and> 0 < d" by simp
    next
      assume "gcd n d = 1 \<and> 0 < d"
      then show "sgn n * sgn d * (\<bar>n\<bar> div gcd n d) = n"
        by (simp add: sgn_if)
    qed
    with False n show ?thesis
      by (simp add: static_assert_irreducible_def ratio_def lowest_terms_def)
  qed
qed

text \<open>
  A diagnostic that names a unit appears exactly when the exponent of that unit is a
  well-formed \<open>std::ratio\<close> with a numerator other than zero that is not in lowest
  terms.
\<close>

lemma static_assert_irreducible_cases:
  "static_assert_irreducible u' f = [] \<or> static_assert_irreducible u' f = [IllFormedRatio]
   \<or> static_assert_irreducible u' f = [NotIrreducible u']"
  by (auto simp: static_assert_irreducible_def ratio_def split: sum.splits)

lemma static_assert_irreducible_rejects:
  "static_assert_irreducible u (n, d) = [NotIrreducible u] \<longleftrightarrow>
     d \<noteq> 0 \<and> representable \<bar>n\<bar> \<and> representable \<bar>d\<bar> \<and> n \<noteq> 0 \<and> \<not> lowest_terms (n, d)"
proof -
  have "static_assert_irreducible u (n, d) = [IllFormedRatio] \<longleftrightarrow>
      \<not> (d \<noteq> 0 \<and> representable \<bar>n\<bar> \<and> representable \<bar>d\<bar>)"
    by (auto simp: static_assert_irreducible_def ratio_def)
  then show ?thesis
    using static_assert_irreducible_cases [of u "(n, d)"]
      static_assert_irreducible_accepts [of u n d]
    by auto
qed

lemma static_asserts_names_unit:
  "NotIrreducible u \<in> set (static_asserts t) \<longleftrightarrow>
     static_assert_irreducible u (exponent t u) = [NotIrreducible u]"
proof -
  have other: "NotIrreducible u \<in> set (static_assert_irreducible u' f) \<longleftrightarrow>
      u' = u \<and> static_assert_irreducible u f = [NotIrreducible u]" for u' f
    using static_assert_irreducible_cases [of u' f] by auto
  have "NotIrreducible u \<in> set (static_asserts t) \<longleftrightarrow>
      (\<exists>u'\<in>set ALL_UNITS. NotIrreducible u \<in> set (static_assert_irreducible u' (exponent t u')))"
    by (simp add: static_asserts_def)
  also have "\<dots> \<longleftrightarrow> u \<in> set ALL_UNITS \<and>
      static_assert_irreducible u (exponent t u) = [NotIrreducible u]"
    unfolding other by auto
  finally show ?thesis
    by (cases u) (simp_all add: ALL_UNITS_def)
qed

text \<open>
  The assertions do not look at the prefix: the target type of a prefix conversion exists
  when the source type does. The message of the first assertion is that of the source.
\<close>

lemma static_asserts_update_pref: "static_asserts (t\<lparr>t_pref := p\<rparr>) = static_asserts t"
  by (simp add: static_asserts_def ALL_UNITS_def)

lemma static_assert_message_Meter:
  "static_assert_message Meter = ''The meter exponent fraction is not irreducible''"
  by (simp add: static_assert_message_def)

text \<open>
  Claim C3 says that \<open>RationalTypeReduced\<close> is instantiated exactly when all seven
  exponents are in lowest terms. The assertions compare numerators only, so an exponent
  with numerator zero passes with any denominator but zero: \<open>0/5\<close> and \<open>0/-1\<close> are
  accepted, and neither is in lowest terms.
\<close>

theorem zero_numerator_accepted:
  "RationalTypeReduced ((dimensionless 0)\<lparr>t_m := (0, 5)\<rparr>) = Inr ((dimensionless 0)\<lparr>t_m := (0, 5)\<rparr>)
   \<and> \<not> lowest_terms (0, 5)
   \<and> RationalTypeReduced ((dimensionless 0)\<lparr>t_s := (0, - 1)\<rparr>) = Inr ((dimensionless 0)\<lparr>t_s := (0, - 1)\<rparr>)
   \<and> \<not> lowest_terms (0, - 1)"
  by (simp add: RationalTypeReduced_def static_asserts_def ALL_UNITS_def dimensionless_def
      static_assert_irreducible_def ratio_def lowest_terms_def representable_def INTMAX_MIN_def
      INTMAX_MAX_def)

subsection \<open>The prefix conversion\<close>

lemma while_positive_iterate:
  "while_positive T nv pref_diff =
     (if pref_diff > 0
      then (case iterate (nat pref_diff) (\<lambda>x. s_mul T x (s_ten T)) nv of
              None \<Rightarrow> Inl StorageFault
            | Some v \<Rightarrow> Inr (v, 0))
      else Inr (nv, pref_diff))"
proof (induction T nv pref_diff rule: while_positive.induct)
  case (1 T nv pref_diff)
  show ?case
  proof (cases "pref_diff > 0")
    case False
    then show ?thesis by (subst while_positive.simps) simp
  next
    case True
    then obtain n where n: "nat pref_diff = Suc n" "nat (pref_diff - 1) = n"
      by (cases "nat pref_diff") auto
    show ?thesis
    proof (cases "s_mul T nv (s_ten T)")
      case None
      with True n show ?thesis by (subst while_positive.simps) simp
    next
      case (Some nv')
      have "while_positive T nv pref_diff = while_positive T nv' (pref_diff - 1)"
        using True Some by (subst while_positive.simps) simp
      also have "\<dots> = (if pref_diff - 1 > 0
          then (case iterate n (\<lambda>x. s_mul T x (s_ten T)) nv' of
                  None \<Rightarrow> Inl StorageFault | Some v \<Rightarrow> Inr (v, 0))
          else Inr (nv', pref_diff - 1))"
        using "1.IH" [OF True Some] n by simp
      also have "\<dots> = (case iterate n (\<lambda>x. s_mul T x (s_ten T)) nv' of
                  None \<Rightarrow> Inl StorageFault | Some v \<Rightarrow> Inr (v, 0))"
        using True n by (cases "pref_diff - 1 > 0") auto
      finally show ?thesis using True Some n by simp
    qed
  qed
qed

lemma while_negative_iterate:
  "while_negative T nv pref_diff =
     (if pref_diff < 0
      then (case iterate (nat (- pref_diff)) (\<lambda>x. s_div T x (s_ten T)) nv of
              None \<Rightarrow> Inl StorageFault
            | Some v \<Rightarrow> Inr (v, 0))
      else Inr (nv, pref_diff))"
proof (induction T nv pref_diff rule: while_negative.induct)
  case (1 T nv pref_diff)
  show ?case
  proof (cases "pref_diff < 0")
    case False
    then show ?thesis by (subst while_negative.simps) simp
  next
    case True
    then obtain n where n: "nat (- pref_diff) = Suc n" "nat (- (pref_diff + 1)) = n"
      by (cases "nat (- pref_diff)") auto
    show ?thesis
    proof (cases "s_div T nv (s_ten T)")
      case None
      with True n show ?thesis by (subst while_negative.simps) simp
    next
      case (Some nv')
      have "while_negative T nv pref_diff = while_negative T nv' (pref_diff + 1)"
        using True Some by (subst while_negative.simps) simp
      also have "\<dots> = (if pref_diff + 1 < 0
          then (case iterate n (\<lambda>x. s_div T x (s_ten T)) nv' of
                  None \<Rightarrow> Inl StorageFault | Some v \<Rightarrow> Inr (v, 0))
          else Inr (nv', pref_diff + 1))"
        using "1.IH" [OF True Some] n by simp
      also have "\<dots> = (case iterate n (\<lambda>x. s_div T x (s_ten T)) nv' of
                  None \<Rightarrow> Inl StorageFault | Some v \<Rightarrow> Inr (v, 0))"
        using True n by (cases "pref_diff + 1 < 0") auto
      finally show ?thesis using True Some n by simp
    qed
  qed
qed

lemma convert_eq:
  "convert T q pref2 =
     (if representable (t_pref (qtag q) - pref2)
      then (case rescale T (t_pref (qtag q) - pref2) (val q) of
              None \<Rightarrow> Inl StorageFault
            | Some v \<Rightarrow> Inr \<lparr>qtag = (qtag q)\<lparr>t_pref := pref2\<rparr>, val = v\<rparr>)
      else Inl Overflow)"
proof (cases "representable (t_pref (qtag q) - pref2)")
  case False
  then show ?thesis by (simp add: convert_def intmax_sub_def and_then_def)
next
  case rep: True
  define k where "k = t_pref (qtag q) - pref2"
  consider "k > 0" | "k = 0" | "k < 0" by linarith
  then have "and_then (while_positive T (val q) k) (\<lambda>(nv, pref_diff).
       and_then (while_negative T nv pref_diff) (\<lambda>(nv, pref_diff).
       Inr \<lparr>qtag = (qtag q)\<lparr>t_pref := pref2\<rparr>, val = nv\<rparr>)) =
     (case rescale T k (val q) of
        None \<Rightarrow> Inl StorageFault
      | Some v \<Rightarrow> Inr \<lparr>qtag = (qtag q)\<lparr>t_pref := pref2\<rparr>, val = v\<rparr>)"
  proof cases
    case 1
    then show ?thesis
      by (simp add: while_positive_iterate while_negative_iterate rescale_def and_then_def
          split: option.splits)
  next
    case 2
    then show ?thesis
      by (simp add: while_positive_iterate while_negative_iterate rescale_def and_then_def)
  next
    case 3
    then show ?thesis
      by (simp add: while_positive_iterate while_negative_iterate rescale_def and_then_def
          split: option.splits)
  qed
  with rep show ?thesis by (simp add: convert_def intmax_sub_def and_then_def k_def)
qed

lemma int_storage_times_ten:
  "(\<lambda>x. s_mul int_storage x (s_ten int_storage)) = (\<lambda>x. int_result (x * 10))"
  by (simp add: int_storage_def)

lemma iterate_int_mul:
  assumes "INT_MIN \<le> v" "v \<le> INT_MAX"
  shows "iterate n (\<lambda>x. int_result (x * 10)) v = int_result (v * 10 ^ n)"
  using assms
proof (induction n arbitrary: v)
  case 0
  then show ?case by (simp add: int_result_def)
next
  case (Suc n)
  show ?case
  proof (cases "INT_MIN \<le> v * 10 \<and> v * 10 \<le> INT_MAX")
    case True
    then have "int_result (v * 10) = Some (v * 10)" by (simp add: int_result_def)
    then have "iterate (Suc n) (\<lambda>x. int_result (x * 10)) v
        = iterate n (\<lambda>x. int_result (x * 10)) (v * 10)" by simp
    also have "\<dots> = int_result (v * 10 * 10 ^ n)"
      using True by (intro Suc.IH) auto
    finally show ?thesis by (simp add: mult.assoc)
  next
    case False
    then have none: "int_result (v * 10) = None" by (auto simp: int_result_def)
    have p: "(1::int) \<le> 10 ^ n" by simp
    have "\<not> (INT_MIN \<le> v * 10 * 10 ^ n \<and> v * 10 * 10 ^ n \<le> INT_MAX)"
    proof (cases "0 \<le> v")
      case True
      with False have "INT_MAX < v * 10" by (simp add: INT_MIN_def)
      moreover have "v * 10 * 1 \<le> v * 10 * 10 ^ n"
        using True p by (intro mult_left_mono) auto
      ultimately show ?thesis by simp
    next
      case neg: False
      with False have "v * 10 < INT_MIN" by (simp add: INT_MAX_def)
      moreover have "v * 10 * 10 ^ n \<le> v * 10 * 1"
        using neg p by (intro mult_left_mono_neg) auto
      ultimately show ?thesis by simp
    qed
    then have "int_result (v * 10 ^ Suc n) = None"
      by (auto simp: int_result_def mult.assoc)
    with none show ?thesis by simp
  qed
qed

lemma int_storage_by_ten:
  "(\<lambda>x. s_div int_storage x (s_ten int_storage)) = (\<lambda>x. int_result (truncating_div x 10))"
  by (simp add: int_storage_def)

lemma truncating_div_pos: "0 < b \<Longrightarrow> truncating_div a b = sgn a * (\<bar>a\<bar> div b)"
  by (simp add: truncating_div_def)

lemma truncating_div_bounds:
  assumes "0 < b"
  shows "min a 0 \<le> truncating_div a b" and "truncating_div a b \<le> max a 0"
proof -
  have nn: "0 \<le> \<bar>a\<bar> div b" using assms by (simp add: pos_imp_zdiv_nonneg_iff)
  have le: "\<bar>a\<bar> div b \<le> \<bar>a\<bar>"
    using zdiv_mono2 [of "\<bar>a\<bar>" 1 b] assms by simp
  show "min a 0 \<le> truncating_div a b"
    using nn le assms by (cases "0 \<le> a") (auto simp: truncating_div_pos sgn_if)
  show "truncating_div a b \<le> max a 0"
    using nn le assms by (cases "0 \<le> a") (auto simp: truncating_div_pos sgn_if)
qed

lemma truncating_div_ten_pow:
  "truncating_div (truncating_div v 10) (10 ^ n) = truncating_div v (10 ^ Suc n)"
proof (cases "\<bar>v\<bar> div 10 = 0")
  case True
  then have "\<bar>v\<bar> div (10 * 10 ^ n) = 0"
    by (simp add: zdiv_zmult2_eq)
  with True show ?thesis by (simp add: truncating_div_pos)
next
  case False
  have nn: "0 \<le> \<bar>v\<bar> div 10" by (simp add: pos_imp_zdiv_nonneg_iff)
  with False have pos: "0 < \<bar>v\<bar> div 10" by simp
  then have v: "v \<noteq> 0" by auto
  have "sgn (sgn v * (\<bar>v\<bar> div 10)) = sgn v"
    using pos v by (simp add: sgn_mult)
  moreover have "\<bar>sgn v * (\<bar>v\<bar> div 10)\<bar> = \<bar>v\<bar> div 10"
    using nn v by (simp add: abs_mult abs_sgn_eq)
  ultimately show ?thesis
    by (simp add: truncating_div_pos zdiv_zmult2_eq)
qed

lemma iterate_int_div:
  assumes "INT_MIN \<le> v" "v \<le> INT_MAX"
  shows "iterate n (\<lambda>x. int_result (truncating_div x 10)) v = Some (truncating_div v (10 ^ n))"
  using assms
proof (induction n arbitrary: v)
  case 0
  then show ?case by (simp add: truncating_div_pos sgn_if)
next
  case (Suc n)
  have "min v 0 \<le> truncating_div v 10" "truncating_div v 10 \<le> max v 0"
    by (simp_all add: truncating_div_bounds)
  with Suc.prems have r: "INT_MIN \<le> truncating_div v 10" "truncating_div v 10 \<le> INT_MAX"
    by (auto simp: INT_MIN_def INT_MAX_def)
  then have "int_result (truncating_div v 10) = Some (truncating_div v 10)"
    by (simp add: int_result_def)
  then have "iterate (Suc n) (\<lambda>x. int_result (truncating_div x 10)) v
      = iterate n (\<lambda>x. int_result (truncating_div x 10)) (truncating_div v 10)" by simp
  also have "\<dots> = Some (truncating_div (truncating_div v 10) (10 ^ n))"
    using r by (rule Suc.IH)
  finally show ?case by (simp only: truncating_div_ten_pow)
qed

lemma exponent_update_pref [simp]: "exponent (t\<lparr>t_pref := p\<rparr>) u = exponent t u"
  by (cases u) simp_all

text \<open>
  Claim C4, as amended. Provided the difference of the source prefix and the target prefix
  is representable in \<open>intmax_t\<close>, the conversion keeps every exponent, sets the prefix
  to the target, and rescales the value by repeated multiplication by ten (difference not
  negative) or repeated division by ten (difference negative), faulting when the storage
  type does; a conversion to the own prefix returns the quantity unchanged. For the storage
  type \<open>int\<close> the repeated multiplication is the multiplication by the power of ten
  (undefined when the product leaves the range) and the repeated division is the
  truncating division by the power of ten.
\<close>

theorem convert_rescales:
  assumes "representable (t_pref (qtag q) - pref2)"
  shows "convert T q pref2 =
           (case rescale T (t_pref (qtag q) - pref2) (val q) of
              None \<Rightarrow> Inl StorageFault
            | Some v \<Rightarrow> Inr \<lparr>qtag = (qtag q)\<lparr>t_pref := pref2\<rparr>, val = v\<rparr>)
         \<and> (\<forall>u. exponent ((qtag q)\<lparr>t_pref := pref2\<rparr>) u = exponent (qtag q) u)
         \<and> convert T q (t_pref (qtag q)) = Inr q
         \<and> (\<forall>n v. INT_MIN \<le> v \<and> v \<le> INT_MAX \<longrightarrow>
               rescale int_storage (int n) v = int_result (v * 10 ^ n))
         \<and> (\<forall>n v. INT_MIN \<le> v \<and> v \<le> INT_MAX \<longrightarrow>
               rescale int_storage (- int n) v = Some (truncating_div v (10 ^ n)))"
proof (intro conjI allI impI)
  show "convert T q pref2 =
           (case rescale T (t_pref (qtag q) - pref2) (val q) of
              None \<Rightarrow> Inl StorageFault
            | Some v \<Rightarrow> Inr \<lparr>qtag = (qtag q)\<lparr>t_pref := pref2\<rparr>, val = v\<rparr>)"
    using assms by (simp add: convert_eq)
  show "convert T q (t_pref (qtag q)) = Inr q"
    by (simp add: convert_eq rescale_def representable_def INTMAX_MIN_def INTMAX_MAX_def)
next
  fix u show "exponent ((qtag q)\<lparr>t_pref := pref2\<rparr>) u = exponent (qtag q) u" by simp
next
  fix n v
  assume v: "INT_MIN \<le> v \<and> v \<le> INT_MAX"
  then show "rescale int_storage (int n) v = int_result (v * 10 ^ n)"
    by (simp add: rescale_def int_storage_times_ten iterate_int_mul)
  show "rescale int_storage (- int n) v = Some (truncating_div v (10 ^ n))"
  proof (cases n)
    case 0
    then show ?thesis
      by (simp add: rescale_def truncating_div_pos sgn_if)
  next
    case (Suc m)
    then have neg: "\<not> 0 \<le> - int n" by simp
    have "rescale int_storage (- int n) v = iterate n (\<lambda>x. int_result (truncating_div x 10)) v"
      using neg by (simp add: rescale_def int_storage_by_ten)
    then show ?thesis
      using v by (simp add: iterate_int_div)
  qed
qed

lemma rescale_int_up:
  "INT_MIN \<le> v \<Longrightarrow> v \<le> INT_MAX \<Longrightarrow> 0 \<le> k \<Longrightarrow>
     rescale int_storage k v = int_result (v * 10 ^ nat k)"
  by (simp add: rescale_def int_storage_times_ten iterate_int_mul)

lemma rescale_int_down:
  "INT_MIN \<le> v \<Longrightarrow> v \<le> INT_MAX \<Longrightarrow> k < 0 \<Longrightarrow>
     rescale int_storage k v = Some (truncating_div v (10 ^ nat (- k)))"
  by (simp add: rescale_def int_storage_by_ten iterate_int_div)

theorem convert_rescales_witness:
  "representable (t_pref (dimensionless 0) - 3)
   \<and> convert int_storage \<lparr>qtag = dimensionless 0, val = 5\<rparr> 3 =
       Inr \<lparr>qtag = (dimensionless 0)\<lparr>t_pref := 3\<rparr>, val = 0\<rparr>"
proof -
  have h: "representable (t_pref (qtag \<lparr>qtag = dimensionless 0, val = 5::int\<rparr>) - 3)"
    by (simp add: dimensionless_def representable_def INTMAX_MIN_def INTMAX_MAX_def)
  have "rescale int_storage (t_pref (dimensionless 0) - 3) 5 = Some 0"
    by (simp add: dimensionless_def rescale_int_down INT_MIN_def INT_MAX_def truncating_div_def)
  with h convert_rescales [OF h, of int_storage] show ?thesis by simp
qed

text \<open>
  Claim C4 as stated, for every quantity and every target prefix, fails where the
  subtraction \<open>t_pref - pref2\<close> overflows: from prefix \<open>INTMAX_MIN\<close> to prefix 1 the
  code has no defined result.
\<close>

theorem convert_overflow_counterexample:
  "convert int_storage \<lparr>qtag = dimensionless INTMAX_MIN, val = 5\<rparr> 1 = Inl Overflow"
  by (simp add: convert_eq dimensionless_def representable_def INTMAX_MIN_def INTMAX_MAX_def)

text \<open>
  Claim C2, as amended. With the storage type \<open>int\<close>, the value 5 at prefix 0 converted to
  prefix 3 is 0 (5 / 10 / 10 / 10, truncating), and back at prefix 0 it is still 0; converted
  to prefix -3 it is 5000, and back at prefix 0 it is 5 again. The exponents are arbitrary.
\<close>

theorem prefix_round_trip_int:
  "convert int_storage \<lparr>qtag = t\<lparr>t_pref := 0\<rparr>, val = 5\<rparr> 3 =
       Inr \<lparr>qtag = t\<lparr>t_pref := 3\<rparr>, val = 0\<rparr>
   \<and> convert int_storage \<lparr>qtag = t\<lparr>t_pref := 3\<rparr>, val = 0\<rparr> 0 =
       Inr \<lparr>qtag = t\<lparr>t_pref := 0\<rparr>, val = 0\<rparr>
   \<and> convert int_storage \<lparr>qtag = t\<lparr>t_pref := 0\<rparr>, val = 5\<rparr> (- 3) =
       Inr \<lparr>qtag = t\<lparr>t_pref := - 3\<rparr>, val = 5000\<rparr>
   \<and> convert int_storage \<lparr>qtag = t\<lparr>t_pref := - 3\<rparr>, val = 5000\<rparr> 0 =
       Inr \<lparr>qtag = t\<lparr>t_pref := 0\<rparr>, val = 5\<rparr>"
  by (simp add: convert_eq rescale_int_up rescale_int_down representable_def INTMAX_MIN_def
      INTMAX_MAX_def INT_MIN_def INT_MAX_def truncating_div_def int_result_def)

text \<open>
  Claim C2 as stated (5 again by way of prefix 3, and 0 by way of prefix -3) is false: the
  two results are the other way round.
\<close>

theorem prefix_round_trip_counterexample:
  "\<not> (and_then (convert int_storage \<lparr>qtag = dimensionless 0, val = 5\<rparr> 3)
          (\<lambda>q. convert int_storage q 0) = Inr \<lparr>qtag = dimensionless 0, val = 5\<rparr>
      \<and> and_then (convert int_storage \<lparr>qtag = dimensionless 0, val = 5\<rparr> (- 3))
          (\<lambda>q. convert int_storage q 0) = Inr \<lparr>qtag = dimensionless 0, val = 0\<rparr>)"
  by (simp add: convert_eq rescale_int_up rescale_int_down representable_def INTMAX_MIN_def
      INTMAX_MAX_def INT_MIN_def INT_MAX_def truncating_div_def int_result_def and_then_def
      dimensionless_def)

subsection \<open>The return types of multiplication and division\<close>

lemma lowest_terms_quotient_of: "lowest_terms (quotient_of r)"
proof -
  obtain p q where pq: "quotient_of r = (p, q)" by (cases "quotient_of r")
  then have "0 < q" "coprime p q"
    by (auto dest: quotient_of_denom_pos quotient_of_coprime)
  then show ?thesis by (simp add: lowest_terms_def pq coprime_iff_gcd_eq_1)
qed

lemma quotient_of_lowest_terms:
  assumes "lowest_terms f"
  shows "quotient_of (rat_of f) = f"
proof -
  obtain p q where f: "f = (p, q)" by (cases f)
  with assms have "0 < q" "coprime p q"
    by (simp_all add: lowest_terms_def coprime_iff_gcd_eq_1)
  then show ?thesis
    by (simp add: f rat_of_def quotient_of_Fract)
qed

lemma ratio_lowest_terms:
  assumes "lowest_terms f" "fits f"
  shows "ratio (fst f) (snd f) = Inr f"
proof -
  from assms(1) have "snd f \<noteq> 0" by (simp add: lowest_terms_def)
  then show ?thesis
    using assms quotient_of_lowest_terms [OF assms(1)]
    by (simp add: ratio_eq fits_def rat_of_def)
qed

lemma static_assert_lowest_terms:
  "lowest_terms f \<Longrightarrow> fits f \<Longrightarrow> static_assert_irreducible u f = []"
  by (simp add: static_assert_irreducible_def ratio_lowest_terms)

lemma lowest_eq:
  assumes "Y \<noteq> 0"
  shows "lowest X Y =
     (if fits (quotient_of (Fract X Y)) then Inr (quotient_of (Fract X Y)) else Inl Overflow)"
proof -
  have e: "quotient_of (Fract X Y) = (sgn X * sgn Y * (\<bar>X\<bar> div gcd X Y), \<bar>Y\<bar> div gcd X Y)"
    using std_ratio_quotient_of [OF assms, of X] by simp
  show ?thesis by (simp add: lowest_def Let_def fits_def e)
qed

lemma ratio_valid:
  assumes "snd f \<noteq> 0" "fits f"
  shows "ratio (fst f) (snd f) = Inr (quotient_of (rat_of f))"
  using assms by (simp add: ratio_eq fits_def rat_of_def)

lemma static_assert_valid:
  assumes "static_assert_irreducible u f = []"
  shows "snd f \<noteq> 0" and "fits f"
proof -
  obtain n d where f: "f = (n, d)" by (cases f)
  from assms show "snd f \<noteq> 0" "fits f"
    unfolding f static_assert_irreducible_accepts by (simp_all add: fits_def)
qed

lemma ADD_FRAC_eq:
  assumes "snd a \<noteq> 0" "fits a" "snd b \<noteq> 0" "fits b"
  shows "ADD_FRAC a b = (if fits (addFrac a b) then Inr (addFrac a b) else Inl Overflow)"
proof -
  note va = ratio_valid [OF assms(1,2)] and vb = ratio_valid [OF assms(3,4)]
  obtain n1 d1 where R1: "quotient_of (rat_of a) = (n1, d1)" by (cases "quotient_of (rat_of a)")
  obtain n2 d2 where R2: "quotient_of (rat_of b) = (n2, d2)" by (cases "quotient_of (rat_of b)")
  have d: "0 < d1" "0 < d2"
    using R1 R2 by (auto dest: quotient_of_denom_pos)
  have "rat_of a = Fract n1 d1" "rat_of b = Fract n2 d2"
    using R1 R2 rat_of_quotient_of [of "rat_of a"] rat_of_quotient_of [of "rat_of b"]
    by (simp_all add: rat_of_def)
  then have sum: "Fract (n1 * d2 + n2 * d1) (d1 * d2) = rat_of a + rat_of b"
    using d by simp
  have "ADD_FRAC a b = lowest (n1 * d2 + n2 * d1) (d1 * d2)"
    by (simp add: ADD_FRAC_def va vb and_then_def R1 R2 ratio_add_def)
  also have "\<dots> = (if fits (quotient_of (rat_of a + rat_of b))
      then Inr (quotient_of (rat_of a + rat_of b)) else Inl Overflow)"
    using d by (simp add: lowest_eq sum)
  finally show ?thesis
    using assms by (simp add: addFrac_quotient_of)
qed

lemma SUB_FRAC_eq:
  assumes "snd a \<noteq> 0" "fits a" "snd b \<noteq> 0" "fits b"
  shows "SUB_FRAC a b = (if fits (subFrac a b) then Inr (subFrac a b) else Inl Overflow)"
proof -
  note va = ratio_valid [OF assms(1,2)] and vb = ratio_valid [OF assms(3,4)]
  obtain n1 d1 where R1: "quotient_of (rat_of a) = (n1, d1)" by (cases "quotient_of (rat_of a)")
  obtain n2 d2 where R2: "quotient_of (rat_of b) = (n2, d2)" by (cases "quotient_of (rat_of b)")
  have d: "0 < d1" "0 < d2"
    using R1 R2 by (auto dest: quotient_of_denom_pos)
  have "rat_of a = Fract n1 d1" "rat_of b = Fract n2 d2"
    using R1 R2 rat_of_quotient_of [of "rat_of a"] rat_of_quotient_of [of "rat_of b"]
    by (simp_all add: rat_of_def)
  then have sum: "Fract (n1 * d2 - n2 * d1) (d1 * d2) = rat_of a - rat_of b"
    using d by simp
  have "SUB_FRAC a b = lowest (n1 * d2 - n2 * d1) (d1 * d2)"
    by (simp add: SUB_FRAC_def va vb and_then_def R1 R2 ratio_subtract_def)
  also have "\<dots> = (if fits (quotient_of (rat_of a - rat_of b))
      then Inr (quotient_of (rat_of a - rat_of b)) else Inl Overflow)"
    using d by (simp add: lowest_eq sum)
  finally show ?thesis
    using assms by (simp add: subFrac_quotient_of)
qed

lemma lowest_terms_addFrac: "snd a \<noteq> 0 \<Longrightarrow> snd b \<noteq> 0 \<Longrightarrow> lowest_terms (addFrac a b)"
  by (simp add: addFrac_quotient_of lowest_terms_quotient_of)

lemma lowest_terms_subFrac: "snd a \<noteq> 0 \<Longrightarrow> snd b \<noteq> 0 \<Longrightarrow> lowest_terms (subFrac a b)"
  by (simp add: subFrac_quotient_of lowest_terms_quotient_of)

lemma instantiable_iff:
  "instantiable t \<longleftrightarrow>
     static_assert_irreducible Meter (t_m t) = [] \<and>
     static_assert_irreducible Second (t_s t) = [] \<and>
     static_assert_irreducible Kilogram (t_kg t) = [] \<and>
     static_assert_irreducible Ampere (t_A t) = [] \<and>
     static_assert_irreducible Kelvin (t_K t) = [] \<and>
     static_assert_irreducible Mole (t_mol t) = [] \<and>
     static_assert_irreducible Candela (t_cd t) = []"
  by (simp add: instantiable_def static_asserts_def ALL_UNITS_def)

lemma RationalTypeReduced_instantiable:
  "instantiable t \<Longrightarrow> RationalTypeReduced t = Inr t"
  by (simp add: instantiable_def RationalTypeReduced_def)

lemma tag_eta:
  "\<lparr>t_m = t_m t, t_s = t_s t, t_kg = t_kg t, t_A = t_A t, t_K = t_K t, t_mol = t_mol t,
    t_cd = t_cd t, t_pref = t_pref t\<rparr> = (t :: tag)"
  by (cases t) simp

lemma RationalType_lowest_terms:
  assumes "lowest_terms (t_m t) \<and> fits (t_m t)" "lowest_terms (t_s t) \<and> fits (t_s t)"
    "lowest_terms (t_kg t) \<and> fits (t_kg t)" "lowest_terms (t_A t) \<and> fits (t_A t)"
    "lowest_terms (t_K t) \<and> fits (t_K t)" "lowest_terms (t_mol t) \<and> fits (t_mol t)"
    "lowest_terms (t_cd t) \<and> fits (t_cd t)"
  shows "RationalType t = Inr t" and "instantiable t"
proof -
  show i: "instantiable t"
    using assms by (simp add: instantiable_iff static_assert_lowest_terms)
  have "RationalType t = RationalTypeReduced t"
    using assms by (simp add: RationalType_def ratio_lowest_terms and_then_def tag_eta)
  with i show "RationalType t = Inr t"
    by (simp add: RationalTypeReduced_instantiable)
qed

lemma for_ALL_UNITS_eq:
  assumes "FRAC (t_m a) (t_m b) = (if fits (t_m c) then Inr (t_m c) else Inl Overflow)"
    and "FRAC (t_s a) (t_s b) = (if fits (t_s c) then Inr (t_s c) else Inl Overflow)"
    and "FRAC (t_kg a) (t_kg b) = (if fits (t_kg c) then Inr (t_kg c) else Inl Overflow)"
    and "FRAC (t_A a) (t_A b) = (if fits (t_A c) then Inr (t_A c) else Inl Overflow)"
    and "FRAC (t_K a) (t_K b) = (if fits (t_K c) then Inr (t_K c) else Inl Overflow)"
    and "FRAC (t_mol a) (t_mol b) = (if fits (t_mol c) then Inr (t_mol c) else Inl Overflow)"
    and "FRAC (t_cd a) (t_cd b) = (if fits (t_cd c) then Inr (t_cd c) else Inl Overflow)"
    and lt: "lowest_terms (t_m c)" "lowest_terms (t_s c)" "lowest_terms (t_kg c)"
      "lowest_terms (t_A c)" "lowest_terms (t_K c)" "lowest_terms (t_mol c)"
      "lowest_terms (t_cd c)"
  shows "for_ALL_UNITS FRAC a b (t_pref c) =
     (if list_all (\<lambda>u. fits (exponent c u)) ALL_UNITS then Inr c else Inl Overflow)"
proof (cases "list_all (\<lambda>u. fits (exponent c u)) ALL_UNITS")
  case True
  then have f: "fits (t_m c)" "fits (t_s c)" "fits (t_kg c)" "fits (t_A c)" "fits (t_K c)"
    "fits (t_mol c)" "fits (t_cd c)"
    by (simp_all add: ALL_UNITS_def)
  have "for_ALL_UNITS FRAC a b (t_pref c) = RationalType c"
    by (simp add: for_ALL_UNITS_def assms(1-7) f and_then_def tag_eta)
  also have "\<dots> = Inr c"
    using lt f by (intro RationalType_lowest_terms) simp_all
  finally show ?thesis using True by simp
next
  case False
  then have "\<not> (fits (t_m c) \<and> fits (t_s c) \<and> fits (t_kg c) \<and> fits (t_A c) \<and> fits (t_K c)
    \<and> fits (t_mol c) \<and> fits (t_cd c))"
    by (simp add: ALL_UNITS_def)
  then have "for_ALL_UNITS FRAC a b (t_pref c) = Inl Overflow"
    by (auto simp: for_ALL_UNITS_def assms(1-7) and_then_def)
  with False show ?thesis by simp
qed

lemma times_type_eq:
  assumes "instantiable a" "instantiable b"
  shows "times_type a b =
     (if tag_representable (combine_under_multiply a b)
      then Inr (combine_under_multiply a b) else Inl Overflow)"
proof -
  let ?c = "combine_under_multiply a b"
  note sa = assms(1) [unfolded instantiable_iff] and sb = assms(2) [unfolded instantiable_iff]
  have nz: "snd (t_m a) \<noteq> 0" "snd (t_s a) \<noteq> 0" "snd (t_kg a) \<noteq> 0" "snd (t_A a) \<noteq> 0"
    "snd (t_K a) \<noteq> 0" "snd (t_mol a) \<noteq> 0" "snd (t_cd a) \<noteq> 0"
    "snd (t_m b) \<noteq> 0" "snd (t_s b) \<noteq> 0" "snd (t_kg b) \<noteq> 0" "snd (t_A b) \<noteq> 0"
    "snd (t_K b) \<noteq> 0" "snd (t_mol b) \<noteq> 0" "snd (t_cd b) \<noteq> 0"
    using sa sb by (auto dest: static_assert_valid(1))
  have ft: "fits (t_m a)" "fits (t_s a)" "fits (t_kg a)" "fits (t_A a)"
    "fits (t_K a)" "fits (t_mol a)" "fits (t_cd a)"
    "fits (t_m b)" "fits (t_s b)" "fits (t_kg b)" "fits (t_A b)"
    "fits (t_K b)" "fits (t_mol b)" "fits (t_cd b)"
    using sa sb by (auto dest: static_assert_valid(2))
  have all: "for_ALL_UNITS ADD_FRAC a b (t_pref ?c) =
     (if list_all (\<lambda>u. fits (exponent ?c u)) ALL_UNITS then Inr ?c else Inl Overflow)"
  proof (rule for_ALL_UNITS_eq)
    show "ADD_FRAC (t_m a) (t_m b) = (if fits (t_m ?c) then Inr (t_m ?c) else Inl Overflow)"
      by (simp add: combine_under_multiply_def ADD_FRAC_eq nz ft)
    show "ADD_FRAC (t_s a) (t_s b) = (if fits (t_s ?c) then Inr (t_s ?c) else Inl Overflow)"
      by (simp add: combine_under_multiply_def ADD_FRAC_eq nz ft)
    show "ADD_FRAC (t_kg a) (t_kg b) = (if fits (t_kg ?c) then Inr (t_kg ?c) else Inl Overflow)"
      by (simp add: combine_under_multiply_def ADD_FRAC_eq nz ft)
    show "ADD_FRAC (t_A a) (t_A b) = (if fits (t_A ?c) then Inr (t_A ?c) else Inl Overflow)"
      by (simp add: combine_under_multiply_def ADD_FRAC_eq nz ft)
    show "ADD_FRAC (t_K a) (t_K b) = (if fits (t_K ?c) then Inr (t_K ?c) else Inl Overflow)"
      by (simp add: combine_under_multiply_def ADD_FRAC_eq nz ft)
    show "ADD_FRAC (t_mol a) (t_mol b) = (if fits (t_mol ?c) then Inr (t_mol ?c) else Inl Overflow)"
      by (simp add: combine_under_multiply_def ADD_FRAC_eq nz ft)
    show "ADD_FRAC (t_cd a) (t_cd b) = (if fits (t_cd ?c) then Inr (t_cd ?c) else Inl Overflow)"
      by (simp add: combine_under_multiply_def ADD_FRAC_eq nz ft)
  qed (simp_all add: combine_under_multiply_def lowest_terms_addFrac nz)
  show ?thesis
    using all by (simp add: times_type_def intmax_add_def and_then_def tag_representable_def
        combine_under_multiply_def)
qed

subsection \<open>Claims C5 and C6: multiplication and division\<close>

lemma divide_type_eq:
  assumes "instantiable a" "instantiable b"
  shows "divide_type a b =
     (if tag_representable (combine_under_divide a b)
      then Inr (combine_under_divide a b) else Inl Overflow)"
proof -
  let ?c = "combine_under_divide a b"
  note sa = assms(1) [unfolded instantiable_iff] and sb = assms(2) [unfolded instantiable_iff]
  have nz: "snd (t_m a) \<noteq> 0" "snd (t_s a) \<noteq> 0" "snd (t_kg a) \<noteq> 0" "snd (t_A a) \<noteq> 0"
    "snd (t_K a) \<noteq> 0" "snd (t_mol a) \<noteq> 0" "snd (t_cd a) \<noteq> 0"
    "snd (t_m b) \<noteq> 0" "snd (t_s b) \<noteq> 0" "snd (t_kg b) \<noteq> 0" "snd (t_A b) \<noteq> 0"
    "snd (t_K b) \<noteq> 0" "snd (t_mol b) \<noteq> 0" "snd (t_cd b) \<noteq> 0"
    using sa sb by (auto dest: static_assert_valid(1))
  have ft: "fits (t_m a)" "fits (t_s a)" "fits (t_kg a)" "fits (t_A a)"
    "fits (t_K a)" "fits (t_mol a)" "fits (t_cd a)"
    "fits (t_m b)" "fits (t_s b)" "fits (t_kg b)" "fits (t_A b)"
    "fits (t_K b)" "fits (t_mol b)" "fits (t_cd b)"
    using sa sb by (auto dest: static_assert_valid(2))
  have all: "for_ALL_UNITS SUB_FRAC a b (t_pref ?c) =
     (if list_all (\<lambda>u. fits (exponent ?c u)) ALL_UNITS then Inr ?c else Inl Overflow)"
  proof (rule for_ALL_UNITS_eq)
    show "SUB_FRAC (t_m a) (t_m b) = (if fits (t_m ?c) then Inr (t_m ?c) else Inl Overflow)"
      by (simp add: combine_under_divide_def SUB_FRAC_eq nz ft)
    show "SUB_FRAC (t_s a) (t_s b) = (if fits (t_s ?c) then Inr (t_s ?c) else Inl Overflow)"
      by (simp add: combine_under_divide_def SUB_FRAC_eq nz ft)
    show "SUB_FRAC (t_kg a) (t_kg b) = (if fits (t_kg ?c) then Inr (t_kg ?c) else Inl Overflow)"
      by (simp add: combine_under_divide_def SUB_FRAC_eq nz ft)
    show "SUB_FRAC (t_A a) (t_A b) = (if fits (t_A ?c) then Inr (t_A ?c) else Inl Overflow)"
      by (simp add: combine_under_divide_def SUB_FRAC_eq nz ft)
    show "SUB_FRAC (t_K a) (t_K b) = (if fits (t_K ?c) then Inr (t_K ?c) else Inl Overflow)"
      by (simp add: combine_under_divide_def SUB_FRAC_eq nz ft)
    show "SUB_FRAC (t_mol a) (t_mol b) = (if fits (t_mol ?c) then Inr (t_mol ?c) else Inl Overflow)"
      by (simp add: combine_under_divide_def SUB_FRAC_eq nz ft)
    show "SUB_FRAC (t_cd a) (t_cd b) = (if fits (t_cd ?c) then Inr (t_cd ?c) else Inl Overflow)"
      by (simp add: combine_under_divide_def SUB_FRAC_eq nz ft)
  qed (simp_all add: combine_under_divide_def lowest_terms_subFrac nz)
  show ?thesis
    using all by (simp add: divide_type_def intmax_sub_def and_then_def tag_representable_def
        combine_under_divide_def)
qed

lemma instantiable_nonzero: "instantiable t \<Longrightarrow> snd (exponent t u) \<noteq> 0"
  by (cases u) (auto simp: instantiable_iff dest: static_assert_valid(1))

lemma exponent_combine_under_multiply:
  "exponent (combine_under_multiply a b) u = addFrac (exponent a u) (exponent b u)"
  by (cases u) (simp_all add: combine_under_multiply_def)

lemma exponent_combine_under_divide:
  "exponent (combine_under_divide a b) u = subFrac (exponent a u) (exponent b u)"
  by (cases u) (simp_all add: combine_under_divide_def)

lemma combine_under_multiply_sum:
  assumes "instantiable a" "instantiable b"
  shows "lowest_terms (exponent (combine_under_multiply a b) u)"
    and "rat_of (exponent (combine_under_multiply a b) u) =
           rat_of (exponent a u) + rat_of (exponent b u)"
  using instantiable_nonzero [OF assms(1), of u] instantiable_nonzero [OF assms(2), of u]
  by (simp_all add: exponent_combine_under_multiply addFrac_quotient_of lowest_terms_quotient_of)

lemma combine_under_divide_difference:
  assumes "instantiable a" "instantiable b"
  shows "lowest_terms (exponent (combine_under_divide a b) u)"
    and "rat_of (exponent (combine_under_divide a b) u) =
           rat_of (exponent a u) - rat_of (exponent b u)"
  using instantiable_nonzero [OF assms(1), of u] instantiable_nonzero [OF assms(2), of u]
  by (simp_all add: exponent_combine_under_divide subFrac_quotient_of lowest_terms_quotient_of)

lemma operator_times_eq:
  assumes "instantiable (qtag a)" "instantiable (qtag b)"
  shows "operator_times T a b =
           (if tag_representable (combine_under_multiply (qtag a) (qtag b))
            then (case s_mul T (val a) (val b) of
                    None \<Rightarrow> Inl StorageFault
                  | Some v \<Rightarrow> Inr \<lparr>qtag = combine_under_multiply (qtag a) (qtag b), val = v\<rparr>)
            else Inl Overflow)"
  by (simp add: operator_times_def times_type_eq [OF assms] and_then_def run_def
      split: option.splits)

lemma operator_divide_eq:
  assumes "instantiable (qtag a)" "instantiable (qtag b)"
  shows "operator_divide T a b =
           (if tag_representable (combine_under_divide (qtag a) (qtag b))
            then (case s_div T (val a) (val b) of
                    None \<Rightarrow> Inl StorageFault
                  | Some v \<Rightarrow> Inr \<lparr>qtag = combine_under_divide (qtag a) (qtag b), val = v\<rparr>)
            else Inl Overflow)"
  by (simp add: operator_divide_def divide_type_eq [OF assms] and_then_def run_def
      split: option.splits)

text \<open>
  The range of the compile-time arithmetic, written out: the bound on an exponent is on
  the absolute values of its numerator and denominator.
\<close>

lemma tag_representable_iff:
  "tag_representable t \<longleftrightarrow>
     INTMAX_MIN \<le> t_pref t \<and> t_pref t \<le> INTMAX_MAX \<and>
     (\<forall>u. \<bar>fst (exponent t u)\<bar> \<le> INTMAX_MAX \<and> \<bar>snd (exponent t u)\<bar> \<le> INTMAX_MAX)"
proof -
  have "(\<forall>u. P u) \<longleftrightarrow> list_all P ALL_UNITS" for P :: "base_unit \<Rightarrow> bool"
  proof
    assume "list_all P ALL_UNITS"
    then show "\<forall>u. P u"
      by (intro allI, rename_tac u, case_tac u) (simp_all add: ALL_UNITS_def)
  qed (simp add: list_all_iff)
  then have "tag_representable t \<longleftrightarrow>
      representable (t_pref t) \<and> (\<forall>u. fits (exponent t u))"
    by (simp add: tag_representable_def)
  then show ?thesis
    by (simp add: fits_def representable_abs) (simp add: representable_def)
qed

text \<open>
  Claim C5, as amended. For two quantities of any exponents and prefixes, the product
  exists when the prefix sum is representable in \<open>intmax_t\<close> and the numerator and the
  denominator of every reduced exponent sum are of absolute value at most \<open>INTMAX_MAX\<close>
  (\<open>tag_representable\<close>; otherwise the program is rejected): its exponents are the sums
  of the exponents in lowest terms, its prefix is the sum of the prefixes, and its value
  is the product of the values in the arithmetic of the storage type.
\<close>

theorem operator_times_combines:
  assumes "instantiable (qtag a)" "instantiable (qtag b)"
  shows "operator_times T a b =
           (if tag_representable (combine_under_multiply (qtag a) (qtag b))
            then (case s_mul T (val a) (val b) of
                    None \<Rightarrow> Inl StorageFault
                  | Some v \<Rightarrow> Inr \<lparr>qtag = combine_under_multiply (qtag a) (qtag b), val = v\<rparr>)
            else Inl Overflow)
         \<and> (\<forall>u. lowest_terms (exponent (combine_under_multiply (qtag a) (qtag b)) u)
               \<and> rat_of (exponent (combine_under_multiply (qtag a) (qtag b)) u) =
                   rat_of (exponent (qtag a) u) + rat_of (exponent (qtag b) u))
         \<and> t_pref (combine_under_multiply (qtag a) (qtag b)) = t_pref (qtag a) + t_pref (qtag b)"
  using operator_times_eq [OF assms] combine_under_multiply_sum [OF assms]
  by (simp add: combine_under_multiply_def)

lemma instantiable_Meters: "instantiable ((dimensionless 0)\<lparr>t_m := (1, 1)\<rparr>)"
  by (simp add: instantiable_iff dimensionless_def static_assert_irreducible_def ratio_def
      representable_def INTMAX_MIN_def INTMAX_MAX_def)

lemma instantiable_dimensionless:
  "instantiable (dimensionless p)"
  by (simp add: instantiable_iff dimensionless_def static_assert_irreducible_def ratio_def
      representable_def INTMAX_MIN_def INTMAX_MAX_def)

theorem operator_times_combines_witness:
  "instantiable ((dimensionless 0)\<lparr>t_m := (1, 1)\<rparr>)
   \<and> operator_times int_storage \<lparr>qtag = (dimensionless 0)\<lparr>t_m := (1, 1)\<rparr>, val = 3\<rparr>
        \<lparr>qtag = (dimensionless 0)\<lparr>t_m := (1, 1)\<rparr>, val = 2\<rparr> =
       Inr \<lparr>qtag = (dimensionless 0)\<lparr>t_m := (2, 1)\<rparr>, val = 6\<rparr>
   \<and> MetersSq = Inr ((dimensionless 0)\<lparr>t_m := (2, 1)\<rparr>)"
proof -
  let ?M = "(dimensionless 0)\<lparr>t_m := (1, 1)\<rparr>"
  have i: "instantiable (qtag \<lparr>qtag = ?M, val = 3::int\<rparr>)"
    and j: "instantiable (qtag \<lparr>qtag = ?M, val = 2::int\<rparr>)"
    by (simp_all add: instantiable_Meters)
  have c: "combine_under_multiply ?M ?M = (dimensionless 0)\<lparr>t_m := (2, 1)\<rparr>"
    by code_simp
  have r: "tag_representable ((dimensionless 0)\<lparr>t_m := (2, 1)\<rparr>)"
    by code_simp
  have m: "s_mul int_storage 3 2 = Some 6"
    by code_simp
  have sq: "MetersSq = Inr ((dimensionless 0)\<lparr>t_m := (2, 1)\<rparr>)"
    by code_simp
  from operator_times_combines [OF i j, of int_storage, THEN conjunct1]
  show ?thesis by (simp add: c r m sq instantiable_Meters)
qed

text \<open>
  Claim C5 as stated, for arbitrary prefixes, fails where the prefix sum is not
  representable: the return type of the product of a quantity at prefix \<open>INTMAX_MAX\<close> and
  a quantity at prefix 1 cannot be formed, and the program is rejected.
\<close>

theorem operator_times_counterexample:
  "instantiable (dimensionless INTMAX_MAX) \<and> instantiable (dimensionless 1)
   \<and> operator_times int_storage \<lparr>qtag = dimensionless INTMAX_MAX, val = 1\<rparr>
        \<lparr>qtag = dimensionless 1, val = 1\<rparr> = Inl Overflow"
proof -
  have "operator_times int_storage \<lparr>qtag = dimensionless INTMAX_MAX, val = 1\<rparr>
        \<lparr>qtag = dimensionless 1, val = 1\<rparr> = Inl Overflow"
    by (simp add: operator_times_def times_type_def intmax_add_def and_then_def
        dimensionless_def representable_def INTMAX_MAX_def INTMAX_MIN_def)
  then show ?thesis by (simp add: instantiable_dimensionless)
qed

text \<open>
  The bound on the exponents is on absolute values: the sum of the exponents
  \<open>- INTMAX_MAX\<close> and \<open>- 1\<close> is \<open>INTMAX_MIN\<close>, a value of \<open>intmax_t\<close>, but not an
  argument \<open>std::ratio\<close> accepts, and the product is rejected.
\<close>

lemma operator_times_boundary:
  "instantiable ((dimensionless 0)\<lparr>t_m := (- INTMAX_MAX, 1)\<rparr>)
   \<and> instantiable ((dimensionless 0)\<lparr>t_m := (- 1, 1)\<rparr>)
   \<and> combine_under_multiply ((dimensionless 0)\<lparr>t_m := (- INTMAX_MAX, 1)\<rparr>)
        ((dimensionless 0)\<lparr>t_m := (- 1, 1)\<rparr>) = (dimensionless 0)\<lparr>t_m := (INTMAX_MIN, 1)\<rparr>
   \<and> representable INTMAX_MIN
   \<and> \<not> tag_representable ((dimensionless 0)\<lparr>t_m := (INTMAX_MIN, 1)\<rparr>)
   \<and> operator_times int_storage \<lparr>qtag = (dimensionless 0)\<lparr>t_m := (- INTMAX_MAX, 1)\<rparr>, val = 1\<rparr>
        \<lparr>qtag = (dimensionless 0)\<lparr>t_m := (- 1, 1)\<rparr>, val = 1\<rparr> = Inl Overflow"
  by code_simp

text \<open>
  Claim C6, as amended. For two quantities of any exponents and prefixes, the quotient
  exists when the prefix difference is representable in \<open>intmax_t\<close> and the numerator
  and the denominator of every reduced exponent difference are of absolute value at most
  \<open>INTMAX_MAX\<close> (\<open>tag_representable\<close>; otherwise the program is rejected): its
  exponents are the differences of the exponents in lowest terms, its prefix is the
  difference of the prefixes, and its value is whatever the division of the storage type
  gives for the two values; the divisor is not examined, so a division that faults in the
  storage type (for \<open>int\<close>, by zero) faults here.
\<close>

theorem operator_divide_combines:
  assumes "instantiable (qtag a)" "instantiable (qtag b)"
  shows "operator_divide T a b =
           (if tag_representable (combine_under_divide (qtag a) (qtag b))
            then (case s_div T (val a) (val b) of
                    None \<Rightarrow> Inl StorageFault
                  | Some v \<Rightarrow> Inr \<lparr>qtag = combine_under_divide (qtag a) (qtag b), val = v\<rparr>)
            else Inl Overflow)
         \<and> (\<forall>u. lowest_terms (exponent (combine_under_divide (qtag a) (qtag b)) u)
               \<and> rat_of (exponent (combine_under_divide (qtag a) (qtag b)) u) =
                   rat_of (exponent (qtag a) u) - rat_of (exponent (qtag b) u))
         \<and> t_pref (combine_under_divide (qtag a) (qtag b)) = t_pref (qtag a) - t_pref (qtag b)"
  using operator_divide_eq [OF assms] combine_under_divide_difference [OF assms]
  by (simp add: combine_under_divide_def)

theorem operator_divide_combines_witness:
  "instantiable ((dimensionless 0)\<lparr>t_m := (1, 1)\<rparr>) \<and> instantiable ((dimensionless 3)\<lparr>t_s := (1, 2)\<rparr>)
   \<and> operator_divide int_storage \<lparr>qtag = (dimensionless 0)\<lparr>t_m := (1, 1)\<rparr>, val = - 7\<rparr>
        \<lparr>qtag = (dimensionless 3)\<lparr>t_s := (1, 2)\<rparr>, val = 2\<rparr> =
       Inr \<lparr>qtag = (dimensionless (- 3))\<lparr>t_m := (1, 1), t_s := (- 1, 2)\<rparr>, val = - 3\<rparr>
   \<and> operator_divide int_storage \<lparr>qtag = (dimensionless 0)\<lparr>t_m := (1, 1)\<rparr>, val = - 7\<rparr>
        \<lparr>qtag = (dimensionless 3)\<lparr>t_s := (1, 2)\<rparr>, val = 0\<rparr> = Inl StorageFault"
proof -
  let ?M = "(dimensionless 0)\<lparr>t_m := (1, 1)\<rparr>"
  let ?S = "(dimensionless 3)\<lparr>t_s := (1, 2)\<rparr>"
  have iM: "instantiable ?M" and iS: "instantiable ?S"
    by code_simp+
  have i: "instantiable (qtag \<lparr>qtag = ?M, val = - 7::int\<rparr>)"
    and j: "instantiable (qtag \<lparr>qtag = ?S, val = 2::int\<rparr>)"
    and k: "instantiable (qtag \<lparr>qtag = ?S, val = 0::int\<rparr>)"
    using iM iS by simp_all
  have c: "combine_under_divide ?M ?S = (dimensionless (- 3))\<lparr>t_m := (1, 1), t_s := (- 1, 2)\<rparr>"
    by code_simp
  have r: "tag_representable ((dimensionless (- 3))\<lparr>t_m := (1, 1), t_s := (- 1, 2)\<rparr>)"
    by code_simp
  have d: "s_div int_storage (- 7) 2 = Some (- 3)" "s_div int_storage (- 7) 0 = None"
    by code_simp+
  from operator_divide_combines [OF i j, of int_storage, THEN conjunct1]
    operator_divide_combines [OF i k, of int_storage, THEN conjunct1]
  show ?thesis by (simp add: c r d iM iS)
qed

text \<open>
  Claim C6 as stated, for arbitrary prefixes, fails where the prefix difference is not
  representable: the quotient of a quantity at prefix \<open>INTMAX_MIN\<close> by a quantity at
  prefix 1 has no return type, and the program is rejected.
\<close>

theorem operator_divide_counterexample:
  "instantiable (dimensionless INTMAX_MIN) \<and> instantiable (dimensionless 1)
   \<and> operator_divide int_storage \<lparr>qtag = dimensionless INTMAX_MIN, val = 1\<rparr>
        \<lparr>qtag = dimensionless 1, val = 1\<rparr> = Inl Overflow"
proof -
  have "operator_divide int_storage \<lparr>qtag = dimensionless INTMAX_MIN, val = 1\<rparr>
        \<lparr>qtag = dimensionless 1, val = 1\<rparr> = Inl Overflow"
    by (simp add: operator_divide_def divide_type_def intmax_sub_def and_then_def
        dimensionless_def representable_def INTMAX_MAX_def INTMAX_MIN_def)
  then show ?thesis by (simp add: instantiable_dimensionless)
qed

text \<open>
  Likewise the difference of the exponents \<open>- INTMAX_MAX\<close> and 1 is \<open>INTMAX_MIN\<close>, and
  the quotient is rejected.
\<close>

lemma operator_divide_boundary:
  "instantiable ((dimensionless 0)\<lparr>t_m := (- INTMAX_MAX, 1)\<rparr>)
   \<and> instantiable ((dimensionless 0)\<lparr>t_m := (1, 1)\<rparr>)
   \<and> combine_under_divide ((dimensionless 0)\<lparr>t_m := (- INTMAX_MAX, 1)\<rparr>)
        ((dimensionless 0)\<lparr>t_m := (1, 1)\<rparr>) = (dimensionless 0)\<lparr>t_m := (INTMAX_MIN, 1)\<rparr>
   \<and> representable INTMAX_MIN
   \<and> \<not> tag_representable ((dimensionless 0)\<lparr>t_m := (INTMAX_MIN, 1)\<rparr>)
   \<and> operator_divide int_storage \<lparr>qtag = (dimensionless 0)\<lparr>t_m := (- INTMAX_MAX, 1)\<rparr>, val = 1\<rparr>
        \<lparr>qtag = (dimensionless 0)\<lparr>t_m := (1, 1)\<rparr>, val = 1\<rparr> = Inl Overflow"
  by code_simp

subsection \<open>Claim C9: the algebra of the return types\<close>

lemma ADD_FRAC_commute: "ADD_FRAC a b = ADD_FRAC b a"
proof -
  have "ratio_add R1 R2 = ratio_add R2 R1" for R1 R2
    by (simp add: ratio_add_def ac_simps)
  then show ?thesis
    by (cases "ratio (fst a) (snd a)"; cases "ratio (fst b) (snd b)")
      (auto simp: ADD_FRAC_def and_then_def ratio_def split: if_splits)
qed

lemma times_type_commute: "times_type a b = times_type b a"
proof -
  have "for_ALL_UNITS ADD_FRAC a b p = for_ALL_UNITS ADD_FRAC b a p" for p
    unfolding for_ALL_UNITS_def
    by (simp only: ADD_FRAC_commute [of "t_m a"] ADD_FRAC_commute [of "t_s a"]
        ADD_FRAC_commute [of "t_kg a"] ADD_FRAC_commute [of "t_A a"]
        ADD_FRAC_commute [of "t_K a"] ADD_FRAC_commute [of "t_mol a"]
        ADD_FRAC_commute [of "t_cd a"])
  then show ?thesis by (simp add: times_type_def intmax_add_def add.commute)
qed

lemma tag_representable_fits: "tag_representable t \<Longrightarrow> fits (exponent t u)"
  by (cases u) (simp_all add: tag_representable_def ALL_UNITS_def)

lemma instantiable_lowest_terms:
  assumes "\<And>u. lowest_terms (exponent t u)" "tag_representable t"
  shows "instantiable t"
proof (rule RationalType_lowest_terms(2))
  show "lowest_terms (t_m t) \<and> fits (t_m t)"
    using assms(1) [of Meter] tag_representable_fits [OF assms(2), of Meter] by simp
  show "lowest_terms (t_s t) \<and> fits (t_s t)"
    using assms(1) [of Second] tag_representable_fits [OF assms(2), of Second] by simp
  show "lowest_terms (t_kg t) \<and> fits (t_kg t)"
    using assms(1) [of Kilogram] tag_representable_fits [OF assms(2), of Kilogram] by simp
  show "lowest_terms (t_A t) \<and> fits (t_A t)"
    using assms(1) [of Ampere] tag_representable_fits [OF assms(2), of Ampere] by simp
  show "lowest_terms (t_K t) \<and> fits (t_K t)"
    using assms(1) [of Kelvin] tag_representable_fits [OF assms(2), of Kelvin] by simp
  show "lowest_terms (t_mol t) \<and> fits (t_mol t)"
    using assms(1) [of Mole] tag_representable_fits [OF assms(2), of Mole] by simp
  show "lowest_terms (t_cd t) \<and> fits (t_cd t)"
    using assms(1) [of Candela] tag_representable_fits [OF assms(2), of Candela] by simp
qed

lemma instantiable_combine_under_multiply:
  "instantiable a \<Longrightarrow> instantiable b \<Longrightarrow> tag_representable (combine_under_multiply a b) \<Longrightarrow>
     instantiable (combine_under_multiply a b)"
  by (rule instantiable_lowest_terms) (simp_all add: combine_under_multiply_sum(1))

lemma instantiable_combine_under_divide:
  "instantiable a \<Longrightarrow> instantiable b \<Longrightarrow> tag_representable (combine_under_divide a b) \<Longrightarrow>
     instantiable (combine_under_divide a b)"
  by (rule instantiable_lowest_terms) (simp_all add: combine_under_divide_difference(1))

lemma tag_eqI:
  fixes s t :: tag
  assumes "\<And>u. exponent s u = exponent t u" "t_pref s = t_pref t"
  shows "s = t"
  using assms(1) [of Meter] assms(1) [of Second] assms(1) [of Kilogram] assms(1) [of Ampere]
    assms(1) [of Kelvin] assms(1) [of Mole] assms(1) [of Candela] assms(2)
  by (cases s; cases t) simp

lemma snd_addFrac: "snd a \<noteq> 0 \<Longrightarrow> snd b \<noteq> 0 \<Longrightarrow> snd (addFrac a b) \<noteq> 0"
  using lowest_terms_addFrac [of a b] by (simp add: lowest_terms_def)

lemma snd_subFrac: "snd a \<noteq> 0 \<Longrightarrow> snd b \<noteq> 0 \<Longrightarrow> snd (subFrac a b) \<noteq> 0"
  using lowest_terms_subFrac [of a b] by (simp add: lowest_terms_def)

lemma addFrac_assoc:
  assumes "snd x \<noteq> 0" "snd y \<noteq> 0" "snd z \<noteq> 0"
  shows "addFrac (addFrac x y) z = addFrac x (addFrac y z)"
proof -
  have "addFrac (addFrac x y) z = quotient_of (rat_of x + rat_of y + rat_of z)"
    using assms snd_addFrac [of x y]
    by (simp add: addFrac_quotient_of [of "addFrac x y" z]) (simp add: addFrac_quotient_of)
  moreover have "addFrac x (addFrac y z) = quotient_of (rat_of x + (rat_of y + rat_of z))"
    using assms snd_addFrac [of y z]
    by (simp add: addFrac_quotient_of [of x "addFrac y z"]) (simp add: addFrac_quotient_of)
  ultimately show ?thesis by (simp add: add.assoc)
qed

lemma addFrac_subFrac:
  assumes "snd x \<noteq> 0" "snd y \<noteq> 0" "snd z \<noteq> 0"
  shows "subFrac (addFrac x y) z = addFrac x (subFrac y z)"
proof -
  have "subFrac (addFrac x y) z = quotient_of (rat_of x + rat_of y - rat_of z)"
    using assms snd_addFrac [of x y]
    by (simp add: subFrac_quotient_of [of "addFrac x y" z]) (simp add: addFrac_quotient_of)
  moreover have "addFrac x (subFrac y z) = quotient_of (rat_of x + (rat_of y - rat_of z))"
    using assms snd_subFrac [of y z]
    by (simp add: addFrac_quotient_of [of x "subFrac y z"]) (simp add: subFrac_quotient_of)
  ultimately show ?thesis by (simp add: algebra_simps)
qed

lemma combine_under_multiply_assoc:
  assumes "instantiable a" "instantiable b" "instantiable c"
  shows "combine_under_multiply (combine_under_multiply a b) c =
         combine_under_multiply a (combine_under_multiply b c)"
proof (rule tag_eqI)
  fix u
  show "exponent (combine_under_multiply (combine_under_multiply a b) c) u =
        exponent (combine_under_multiply a (combine_under_multiply b c)) u"
    using assms by (simp add: exponent_combine_under_multiply addFrac_assoc instantiable_nonzero)
next
  show "t_pref (combine_under_multiply (combine_under_multiply a b) c) =
        t_pref (combine_under_multiply a (combine_under_multiply b c))"
    by (simp add: combine_under_multiply_def)
qed

lemma combine_under_multiply_divide:
  assumes "instantiable a" "instantiable b" "instantiable c"
  shows "combine_under_divide (combine_under_multiply a b) c =
         combine_under_multiply a (combine_under_divide b c)"
proof (rule tag_eqI)
  fix u
  show "exponent (combine_under_divide (combine_under_multiply a b) c) u =
        exponent (combine_under_multiply a (combine_under_divide b c)) u"
    using assms
    by (simp add: exponent_combine_under_multiply exponent_combine_under_divide addFrac_subFrac
        instantiable_nonzero)
next
  show "t_pref (combine_under_divide (combine_under_multiply a b) c) =
        t_pref (combine_under_multiply a (combine_under_divide b c))"
    by (simp add: combine_under_multiply_def combine_under_divide_def)
qed

lemma times_type_Inr:
  assumes "instantiable a" "instantiable b" "times_type a b = Inr t"
  shows "t = combine_under_multiply a b" and "instantiable t"
proof -
  from assms(3) show t: "t = combine_under_multiply a b"
    and "instantiable t"
    using instantiable_combine_under_multiply [OF assms(1,2)]
    by (auto simp: times_type_eq [OF assms(1,2)] split: if_splits)
qed

lemma divide_type_Inr:
  assumes "instantiable a" "instantiable b" "divide_type a b = Inr t"
  shows "t = combine_under_divide a b" and "instantiable t"
proof -
  from assms(3) show t: "t = combine_under_divide a b"
    and "instantiable t"
    using instantiable_combine_under_divide [OF assms(1,2)]
    by (auto simp: divide_type_eq [OF assms(1,2)] split: if_splits)
qed

text \<open>
  The type of a chain over operands whose types exist: it exists exactly when every step
  stays within the range of the compile-time arithmetic, and then it is the type the
  specification combines; the exponents of a product or quotient are the totals over the
  operands in lowest terms, so that the type depends on the operands and on which of
  them are divisors, and not on the order or the grouping of the operations.
\<close>

lemma subFrac_subFrac:
  assumes "snd x \<noteq> 0" "snd y \<noteq> 0" "snd z \<noteq> 0"
  shows "subFrac (subFrac x y) z = subFrac x (addFrac y z)"
proof -
  have "subFrac (subFrac x y) z = quotient_of (rat_of x - rat_of y - rat_of z)"
    using assms snd_subFrac [of x y]
    by (simp add: subFrac_quotient_of [of "subFrac x y" z]) (simp add: subFrac_quotient_of)
  moreover have "subFrac x (addFrac y z) = quotient_of (rat_of x - (rat_of y + rat_of z))"
    using assms snd_addFrac [of y z]
    by (simp add: subFrac_quotient_of [of x "addFrac y z"]) (simp add: addFrac_quotient_of)
  ultimately show ?thesis by (simp add: algebra_simps)
qed

lemma combine_under_divide_divide:
  assumes "instantiable a" "instantiable b" "instantiable c"
  shows "combine_under_divide (combine_under_divide a b) c =
         combine_under_divide a (combine_under_multiply b c)"
proof (rule tag_eqI)
  fix u
  show "exponent (combine_under_divide (combine_under_divide a b) c) u =
        exponent (combine_under_divide a (combine_under_multiply b c)) u"
    using assms
    by (simp add: exponent_combine_under_multiply exponent_combine_under_divide subFrac_subFrac
        instantiable_nonzero)
next
  show "t_pref (combine_under_divide (combine_under_divide a b) c) =
        t_pref (combine_under_divide a (combine_under_multiply b c))"
    by (simp add: combine_under_multiply_def combine_under_divide_def)
qed

lemma sum_list_flip:
  fixes f :: "tag \<Rightarrow> 'a::ab_group_add"
  shows "sum_list (map ((\<lambda>(d, t). if d then - f t else f t) \<circ> (\<lambda>(d, t). (\<not> d, t))) xs) =
         - (\<Sum>(d, t)\<leftarrow>xs. if d then - f t else f t)"
  by (induction xs) (auto simp: case_prod_beta)

lemma total_exponent_simps [simp]:
  "total_exponent (Operand t) u = rat_of (exponent t u)"
  "total_exponent (Times x y) u = total_exponent x u + total_exponent y u"
  "total_exponent (Divide x y) u = total_exponent x u - total_exponent y u"
  by (simp_all add: total_exponent_def sum_list_flip)

lemma total_prefix_simps [simp]:
  "total_prefix (Operand t) = t_pref t"
  "total_prefix (Times x y) = total_prefix x + total_prefix y"
  "total_prefix (Divide x y) = total_prefix x - total_prefix y"
  by (simp_all add: total_prefix_def sum_list_flip)

lemma total_mset:
  assumes "mset (signed_operands e1) = mset (signed_operands e2)"
  shows "total_exponent e1 u = total_exponent e2 u" and "total_prefix e1 = total_prefix e2"
proof -
  have "sum_list (map g (signed_operands e1)) = sum_list (map g (signed_operands e2))"
    for g :: "bool \<times> tag \<Rightarrow> 'a::ab_group_add"
  proof -
    have "sum_mset (image_mset g (mset (signed_operands e1))) =
          sum_mset (image_mset g (mset (signed_operands e2)))"
      by (simp add: assms)
    then show ?thesis by (simp add: sum_mset_sum_list flip: mset_map)
  qed
  then show "total_exponent e1 u = total_exponent e2 u" and "total_prefix e1 = total_prefix e2"
    by (simp_all add: total_exponent_def total_prefix_def)
qed

lemma chain_tag_total:
  "list_all instantiable (operands e) \<Longrightarrow>
     rat_of (exponent (chain_tag e) u) = total_exponent e u \<and> snd (exponent (chain_tag e) u) \<noteq> 0"
proof (induction e)
  case (Operand t)
  then show ?case by (simp add: instantiable_nonzero)
next
  case (Times x y)
  then show ?case
    using quotient_of_denom_pos' [of "total_exponent x u + total_exponent y u"]
    by (simp add: exponent_combine_under_multiply addFrac_quotient_of)
next
  case (Divide x y)
  then show ?case
    using quotient_of_denom_pos' [of "total_exponent x u - total_exponent y u"]
    by (simp add: exponent_combine_under_divide subFrac_quotient_of)
qed

lemma chain_tag_exponent:
  assumes "list_all instantiable (operands e)" "\<And>t. e \<noteq> Operand t"
  shows "exponent (chain_tag e) u = quotient_of (total_exponent e u)"
proof (cases e)
  case (Operand t)
  with assms(2) [of t] show ?thesis by simp
next
  case (Times x y)
  with assms(1) chain_tag_total [of x u] chain_tag_total [of y u] show ?thesis
    by (simp add: exponent_combine_under_multiply addFrac_quotient_of)
next
  case (Divide x y)
  with assms(1) chain_tag_total [of x u] chain_tag_total [of y u] show ?thesis
    by (simp add: exponent_combine_under_divide subFrac_quotient_of)
qed

lemma chain_tag_prefix: "t_pref (chain_tag e) = total_prefix e"
  by (induction e) (simp_all add: combine_under_multiply_def combine_under_divide_def)

lemma chain_type_eq:
  "list_all instantiable (operands e) \<Longrightarrow>
     chain_type e = (if chain_representable e then Inr (chain_tag e) else Inl Overflow)
     \<and> (chain_representable e \<longrightarrow> instantiable (chain_tag e))"
proof (induction e)
  case (Operand t)
  then show ?case by (simp add: RationalTypeReduced_instantiable)
next
  case (Times x y)
  then have x: "chain_type x = (if chain_representable x then Inr (chain_tag x) else Inl Overflow)"
    and ix: "chain_representable x \<Longrightarrow> instantiable (chain_tag x)"
    and y: "chain_type y = (if chain_representable y then Inr (chain_tag y) else Inl Overflow)"
    and iy: "chain_representable y \<Longrightarrow> instantiable (chain_tag y)"
    by simp_all
  show ?case
  proof (cases "chain_representable x \<and> chain_representable y")
    case True
    then show ?thesis
      using x y times_type_eq [OF ix iy] instantiable_combine_under_multiply [OF ix iy]
      by (simp add: and_then_def)
  next
    case False
    then show ?thesis using x y by (auto simp: and_then_def)
  qed
next
  case (Divide x y)
  then have x: "chain_type x = (if chain_representable x then Inr (chain_tag x) else Inl Overflow)"
    and ix: "chain_representable x \<Longrightarrow> instantiable (chain_tag x)"
    and y: "chain_type y = (if chain_representable y then Inr (chain_tag y) else Inl Overflow)"
    and iy: "chain_representable y \<Longrightarrow> instantiable (chain_tag y)"
    by simp_all
  show ?case
  proof (cases "chain_representable x \<and> chain_representable y")
    case True
    then show ?thesis
      using x y divide_type_eq [OF ix iy] instantiable_combine_under_divide [OF ix iy]
      by (simp add: and_then_def)
  next
    case False
    then show ?thesis using x y by (auto simp: and_then_def)
  qed
qed

lemma chain_type_Inr:
  assumes "list_all instantiable (operands e)" "chain_type e = Inr t"
  shows "t = chain_tag e" and "chain_representable e"
  using chain_type_eq [OF assms(1)] assms(2) by (auto split: if_splits)

lemma signed_operands_length:
  "0 < length (signed_operands e)"
  "length (signed_operands e) = 1 \<longleftrightarrow> (\<exists>t. e = Operand t)"
proof -
  show pos: "0 < length (signed_operands e)" for e
    by (induction e) simp_all
  show "length (signed_operands e) = 1 \<longleftrightarrow> (\<exists>t. e = Operand t)"
  proof (cases e)
    case (Times x y)
    then show ?thesis
      using pos [of x] pos [of y]
      by (cases "signed_operands x"; cases "signed_operands y") simp_all
  next
    case (Divide x y)
    then show ?thesis
      using pos [of x] pos [of y]
      by (cases "signed_operands x"; cases "signed_operands y") simp_all
  qed simp
qed

lemma chain_tag_order:
  assumes "list_all instantiable (operands e1)" "list_all instantiable (operands e2)"
    and "mset (signed_operands e1) = mset (signed_operands e2)"
  shows "chain_tag e1 = chain_tag e2"
proof (cases "\<exists>t. e1 = Operand t")
  case True
  then obtain t where t: "e1 = Operand t" by blast
  have "length (signed_operands e2) = length (signed_operands e1)"
    using assms(3) by (metis size_mset)
  then obtain t' where t': "e2 = Operand t'"
    using signed_operands_length(2) [of e2] by (auto simp: t)
  then show ?thesis using assms(3) by (simp add: t)
next
  case False
  have "length (signed_operands e2) = length (signed_operands e1)"
    using assms(3) by (metis size_mset)
  with False have n: "\<And>t. e1 \<noteq> Operand t" "\<And>t. e2 \<noteq> Operand t"
    using signed_operands_length(2) [of e1] signed_operands_length(2) [of e2] by auto
  show ?thesis
  proof (rule tag_eqI)
    fix u
    show "exponent (chain_tag e1) u = exponent (chain_tag e2) u"
      using total_mset(1) [OF assms(3), of u]
      by (simp add: chain_tag_exponent assms(1,2) n)
  next
    show "t_pref (chain_tag e1) = t_pref (chain_tag e2)"
      using total_mset(2) [OF assms(3)] by (simp add: chain_tag_prefix)
  qed
qed

text \<open>
  Claim C9, as amended. The return type of the product does not depend on the order of
  the two operands, whether it exists or not. Of three operands, \<open>(a * b) * c\<close> and
  \<open>a * (b * c)\<close> have the same type whenever both exist, and so have \<open>(a * b) / c\<close> and
  \<open>a * (b / c)\<close>, and \<open>(a / b) / c\<close> and \<open>a / (b * c)\<close>. A chain of multiplications and
  divisions has a type exactly when every intermediate type and the final one have a
  prefix representable in \<open>intmax_t\<close> and exponents whose numerator and denominator are
  of absolute value at most \<open>INTMAX_MAX\<close>; the exponents of that type are the totals of
  the exponents of the operands, those of the divisors counted negative, in lowest terms,
  and its prefix is the total of the prefixes; and two chains with the same operands and
  the same divisors, chained in any order and grouping, have the same type whenever both
  have one.
\<close>

theorem times_type_commutative_associative:
  assumes "instantiable a" "instantiable b" "instantiable c"
  shows "times_type a b = times_type b a
         \<and> (\<forall>ab bc t1 t2. times_type a b = Inr ab \<and> times_type ab c = Inr t1 \<and>
               times_type b c = Inr bc \<and> times_type a bc = Inr t2 \<longrightarrow> t1 = t2)
         \<and> (\<forall>ab bc t1 t2. times_type a b = Inr ab \<and> divide_type ab c = Inr t1 \<and>
               divide_type b c = Inr bc \<and> times_type a bc = Inr t2 \<longrightarrow> t1 = t2)
         \<and> (\<forall>ab bc t1 t2. divide_type a b = Inr ab \<and> divide_type ab c = Inr t1 \<and>
               times_type b c = Inr bc \<and> divide_type a bc = Inr t2 \<longrightarrow> t1 = t2)
         \<and> (tag_representable (combine_under_multiply a b) \<and>
             tag_representable (combine_under_multiply b c) \<and>
             tag_representable (combine_under_multiply (combine_under_multiply a b) c) \<longrightarrow>
             and_then (times_type a b) (\<lambda>ab. times_type ab c) =
               Inr (combine_under_multiply (combine_under_multiply a b) c) \<and>
             and_then (times_type b c) (\<lambda>bc. times_type a bc) =
               Inr (combine_under_multiply (combine_under_multiply a b) c))
         \<and> (list_all instantiable (operands e) \<longrightarrow>
             chain_type e = (if chain_representable e then Inr (chain_tag e) else Inl Overflow))
         \<and> (list_all instantiable (operands e) \<and> chain_type e = Inr t \<longrightarrow>
             (\<forall>u. rat_of (exponent t u) = total_exponent e u \<and>
                  ((\<forall>t'. e \<noteq> Operand t') \<longrightarrow> lowest_terms (exponent t u))) \<and>
             t_pref t = total_prefix e)
         \<and> (list_all instantiable (operands e1) \<and> list_all instantiable (operands e2) \<and>
             mset (signed_operands e1) = mset (signed_operands e2) \<longrightarrow>
             (\<forall>t1 t2. chain_type e1 = Inr t1 \<and> chain_type e2 = Inr t2 \<longrightarrow> t1 = t2))"
proof (intro conjI allI impI)
  show "times_type a b = times_type b a" by (rule times_type_commute)
next
  fix ab bc t1 t2
  assume h: "times_type a b = Inr ab \<and> times_type ab c = Inr t1 \<and>
             times_type b c = Inr bc \<and> times_type a bc = Inr t2"
  note ab = times_type_Inr [OF assms(1,2), of ab] and bc = times_type_Inr [OF assms(2,3), of bc]
  have "t1 = combine_under_multiply (combine_under_multiply a b) c"
    using h ab times_type_Inr(1) [OF _ assms(3), of ab t1] by simp
  moreover have "t2 = combine_under_multiply a (combine_under_multiply b c)"
    using h bc times_type_Inr(1) [OF assms(1), of bc t2] by simp
  ultimately show "t1 = t2"
    by (simp add: combine_under_multiply_assoc [OF assms])
next
  fix ab bc t1 t2
  assume h: "times_type a b = Inr ab \<and> divide_type ab c = Inr t1 \<and>
             divide_type b c = Inr bc \<and> times_type a bc = Inr t2"
  note ab = times_type_Inr [OF assms(1,2), of ab] and bc = divide_type_Inr [OF assms(2,3), of bc]
  have "t1 = combine_under_divide (combine_under_multiply a b) c"
    using h ab divide_type_Inr(1) [OF _ assms(3), of ab t1] by simp
  moreover have "t2 = combine_under_multiply a (combine_under_divide b c)"
    using h bc times_type_Inr(1) [OF assms(1), of bc t2] by simp
  ultimately show "t1 = t2"
    by (simp add: combine_under_multiply_divide [OF assms])
next
  fix ab bc t1 t2
  assume h: "divide_type a b = Inr ab \<and> divide_type ab c = Inr t1 \<and>
             times_type b c = Inr bc \<and> divide_type a bc = Inr t2"
  note ab = divide_type_Inr [OF assms(1,2), of ab] and bc = times_type_Inr [OF assms(2,3), of bc]
  have "t1 = combine_under_divide (combine_under_divide a b) c"
    using h ab divide_type_Inr(1) [OF _ assms(3), of ab t1] by simp
  moreover have "t2 = combine_under_divide a (combine_under_multiply b c)"
    using h bc divide_type_Inr(1) [OF assms(1), of bc t2] by simp
  ultimately show "t1 = t2"
    by (simp add: combine_under_divide_divide [OF assms])
next
  assume r: "tag_representable (combine_under_multiply a b) \<and>
             tag_representable (combine_under_multiply b c) \<and>
             tag_representable (combine_under_multiply (combine_under_multiply a b) c)"
  have iab: "instantiable (combine_under_multiply a b)"
    and ibc: "instantiable (combine_under_multiply b c)"
    using r assms by (simp_all add: instantiable_combine_under_multiply)
  show "and_then (times_type a b) (\<lambda>ab. times_type ab c) =
               Inr (combine_under_multiply (combine_under_multiply a b) c)"
    using r by (simp add: times_type_eq [OF assms(1,2)] times_type_eq [OF iab assms(3)]
        and_then_def)
  show "and_then (times_type b c) (\<lambda>bc. times_type a bc) =
               Inr (combine_under_multiply (combine_under_multiply a b) c)"
    using r by (simp add: times_type_eq [OF assms(2,3)] times_type_eq [OF assms(1) ibc]
        and_then_def combine_under_multiply_assoc [OF assms])
next
  assume "list_all instantiable (operands e)"
  then show "chain_type e = (if chain_representable e then Inr (chain_tag e) else Inl Overflow)"
    by (simp add: chain_type_eq)
next
  fix u
  assume h: "list_all instantiable (operands e) \<and> chain_type e = Inr t"
  then have t: "t = chain_tag e" by (simp add: chain_type_Inr(1))
  show "rat_of (exponent t u) = total_exponent e u"
    using h by (simp add: t chain_tag_total)
  show "lowest_terms (exponent t u)" if "\<forall>t'. e \<noteq> Operand t'"
    using h that by (simp add: t chain_tag_exponent lowest_terms_quotient_of)
next
  assume h: "list_all instantiable (operands e) \<and> chain_type e = Inr t"
  then have t: "t = chain_tag e" by (simp add: chain_type_Inr(1))
  show "t_pref t = total_prefix e"
    by (simp add: t chain_tag_prefix)
next
  fix t1 t2
  assume h: "list_all instantiable (operands e1) \<and> list_all instantiable (operands e2) \<and>
             mset (signed_operands e1) = mset (signed_operands e2)"
    and b: "chain_type e1 = Inr t1 \<and> chain_type e2 = Inr t2"
  from h b have "t1 = chain_tag e1" "t2 = chain_tag e2"
    by (simp_all add: chain_type_Inr(1))
  with h show "t1 = t2" by (simp add: chain_tag_order)
qed

text \<open>
  For instance \<open>Newtons\<close>, declared as \<open>Meters * Kilograms / Seconds / Seconds\<close>, is the
  type of \<open>Kilograms * (Meters / (Seconds * Seconds))\<close>.
\<close>

lemma Newtons_type:
  "Newtons = Inr ((dimensionless 0)\<lparr>t_m := (1, 1), t_s := (- 2, 1), t_kg := (1, 1)\<rparr>)"
  by code_simp

theorem times_type_commutative_associative_witness:
  "instantiable ((dimensionless 3)\<lparr>t_m := (1, 2)\<rparr>)
   \<and> instantiable ((dimensionless (- 6))\<lparr>t_m := (1, 3), t_s := (- 2, 1)\<rparr>)
   \<and> instantiable ((dimensionless 0)\<lparr>t_m := (1, 6), t_kg := (1, 1)\<rparr>)
   \<and> times_type ((dimensionless 3)\<lparr>t_m := (1, 2)\<rparr>)
        ((dimensionless (- 6))\<lparr>t_m := (1, 3), t_s := (- 2, 1)\<rparr>) =
      times_type ((dimensionless (- 6))\<lparr>t_m := (1, 3), t_s := (- 2, 1)\<rparr>)
        ((dimensionless 3)\<lparr>t_m := (1, 2)\<rparr>)
   \<and> and_then (times_type ((dimensionless 3)\<lparr>t_m := (1, 2)\<rparr>)
          ((dimensionless (- 6))\<lparr>t_m := (1, 3), t_s := (- 2, 1)\<rparr>))
        (\<lambda>ab. times_type ab ((dimensionless 0)\<lparr>t_m := (1, 6), t_kg := (1, 1)\<rparr>)) =
      Inr ((dimensionless (- 3))\<lparr>t_m := (1, 1), t_s := (- 2, 1), t_kg := (1, 1)\<rparr>)
   \<and> and_then (times_type ((dimensionless (- 6))\<lparr>t_m := (1, 3), t_s := (- 2, 1)\<rparr>)
          ((dimensionless 0)\<lparr>t_m := (1, 6), t_kg := (1, 1)\<rparr>))
        (\<lambda>bc. times_type ((dimensionless 3)\<lparr>t_m := (1, 2)\<rparr>) bc) =
      Inr ((dimensionless (- 3))\<lparr>t_m := (1, 1), t_s := (- 2, 1), t_kg := (1, 1)\<rparr>)
   \<and> list_all instantiable
        [(dimensionless 0)\<lparr>t_m := (1, 1)\<rparr>, (dimensionless 0)\<lparr>t_kg := (1, 1)\<rparr>,
         (dimensionless 0)\<lparr>t_s := (1, 1)\<rparr>]
   \<and> chain_type
        (Divide (Divide (Times (Operand ((dimensionless 0)\<lparr>t_m := (1, 1)\<rparr>))
                               (Operand ((dimensionless 0)\<lparr>t_kg := (1, 1)\<rparr>)))
                        (Operand ((dimensionless 0)\<lparr>t_s := (1, 1)\<rparr>)))
                (Operand ((dimensionless 0)\<lparr>t_s := (1, 1)\<rparr>))) =
      Inr ((dimensionless 0)\<lparr>t_m := (1, 1), t_s := (- 2, 1), t_kg := (1, 1)\<rparr>)
   \<and> chain_type
        (Times (Operand ((dimensionless 0)\<lparr>t_kg := (1, 1)\<rparr>))
               (Divide (Operand ((dimensionless 0)\<lparr>t_m := (1, 1)\<rparr>))
                       (Times (Operand ((dimensionless 0)\<lparr>t_s := (1, 1)\<rparr>))
                              (Operand ((dimensionless 0)\<lparr>t_s := (1, 1)\<rparr>))))) =
      Inr ((dimensionless 0)\<lparr>t_m := (1, 1), t_s := (- 2, 1), t_kg := (1, 1)\<rparr>)"
proof -
  let ?a = "(dimensionless 3)\<lparr>t_m := (1, 2)\<rparr>"
  let ?b = "(dimensionless (- 6))\<lparr>t_m := (1, 3), t_s := (- 2, 1)\<rparr>"
  let ?c = "(dimensionless 0)\<lparr>t_m := (1, 6), t_kg := (1, 1)\<rparr>"
  let ?M = "(dimensionless 0)\<lparr>t_m := (1, 1)\<rparr>"
  let ?Kg = "(dimensionless 0)\<lparr>t_kg := (1, 1)\<rparr>"
  let ?S = "(dimensionless 0)\<lparr>t_s := (1, 1)\<rparr>"
  let ?N = "(dimensionless 0)\<lparr>t_m := (1, 1), t_s := (- 2, 1), t_kg := (1, 1)\<rparr>"
  let ?e1 = "Divide (Divide (Times (Operand ?M) (Operand ?Kg)) (Operand ?S)) (Operand ?S)"
  let ?e2 = "Times (Operand ?Kg) (Divide (Operand ?M) (Times (Operand ?S) (Operand ?S)))"
  have i: "instantiable ?a" "instantiable ?b" "instantiable ?c"
    by code_simp+
  have r: "tag_representable (combine_under_multiply ?a ?b)"
    "tag_representable (combine_under_multiply ?b ?c)"
    "tag_representable (combine_under_multiply (combine_under_multiply ?a ?b) ?c)"
    by code_simp+
  have v: "combine_under_multiply (combine_under_multiply ?a ?b) ?c =
      (dimensionless (- 3))\<lparr>t_m := (1, 1), t_s := (- 2, 1), t_kg := (1, 1)\<rparr>"
    by code_simp
  have o: "list_all instantiable [?M, ?Kg, ?S]"
    by code_simp
  then have o1: "list_all instantiable (operands ?e1)"
    and o2: "list_all instantiable (operands ?e2)"
    by simp_all
  have m: "mset (signed_operands ?e1) = mset (signed_operands ?e2)"
    by simp
  have c1: "chain_representable ?e1" and t1: "chain_tag ?e1 = ?N"
    by code_simp+
  have c2: "chain_representable ?e2"
    by code_simp
  note th = times_type_commutative_associative [OF i]
  from th r
  have "times_type ?a ?b = times_type ?b ?a"
    and "and_then (times_type ?a ?b) (\<lambda>ab. times_type ab ?c) =
           Inr (combine_under_multiply (combine_under_multiply ?a ?b) ?c)"
    and "and_then (times_type ?b ?c) (\<lambda>bc. times_type ?a bc) =
           Inr (combine_under_multiply (combine_under_multiply ?a ?b) ?c)"
    by blast+
  moreover from th [of ?e1] o1 c1 t1 have e1: "chain_type ?e1 = Inr ?N"
    by simp
  moreover from th [of ?e2] o2 c2 have e2: "chain_type ?e2 = Inr (chain_tag ?e2)"
    by simp
  moreover from th [of _ _ ?e1 ?e2] o1 o2 m e1 e2 have "?N = chain_tag ?e2"
    by blast
  ultimately show ?thesis using i v o by simp
qed

text \<open>
  Claim C9 as stated, for all quantities, fails where one order of the chain leaves the
  range of \<open>intmax_t\<close> on the way: with the prefixes \<open>INTMAX_MAX\<close>, 1 and -1, the type of
  \<open>(a * b) * c\<close> cannot be formed, while \<open>a * (b * c)\<close> has prefix \<open>INTMAX_MAX\<close>.
\<close>

theorem times_type_associative_counterexample:
  "instantiable (dimensionless INTMAX_MAX) \<and> instantiable (dimensionless 1)
   \<and> instantiable (dimensionless (- 1))
   \<and> and_then (times_type (dimensionless INTMAX_MAX) (dimensionless 1))
        (\<lambda>ab. times_type ab (dimensionless (- 1))) = Inl Overflow
   \<and> and_then (times_type (dimensionless 1) (dimensionless (- 1)))
        (\<lambda>bc. times_type (dimensionless INTMAX_MAX) bc) = Inr (dimensionless INTMAX_MAX)"
proof -
  have "and_then (times_type (dimensionless INTMAX_MAX) (dimensionless 1))
        (\<lambda>ab. times_type ab (dimensionless (- 1))) = Inl Overflow"
    by code_simp
  moreover have "and_then (times_type (dimensionless 1) (dimensionless (- 1)))
        (\<lambda>bc. times_type (dimensionless INTMAX_MAX) bc) = Inr (dimensionless INTMAX_MAX)"
    by code_simp
  ultimately show ?thesis by (simp add: instantiable_dimensionless)
qed

subsection \<open>The storage type \<open>float\<close>\<close>

text \<open>
  \<open>floor_log2\<close> is the exponent of the power of two at or below a positive number, and
  \<open>round_ties_even\<close> the nearest integer, the even one of two equally near.
\<close>

lemma pow2_power_int: "pow2 e = 2 powi e"
  by (simp add: pow2_def power_int_def power_inverse inverse_eq_divide power_one_over)

lemma pow2_pos: "0 < pow2 e"
  by (simp add: pow2_power_int)

lemma floor_log2_bounds:
  assumes "0 < r"
  shows "pow2 (floor_log2 r) \<le> r \<and> r < pow2 (floor_log2 r + 1)"
proof -
  obtain p q where pq: "quotient_of r = (p, q)" by (cases "quotient_of r")
  then have q: "0 < q" and r: "r = of_int p / of_int q"
    using quotient_of_denom_pos [OF pq] quotient_of_div [OF pq] by simp_all
  with assms have p: "0 < p"
    by (simp add: zero_less_divide_iff)
  define k where "k = bitlen p"
  define l where "l = bitlen q"
  have k: "1 \<le> k" and l: "1 \<le> l"
    using p q by (simp_all add: k_def l_def bitlen_alt_def)
  have pb: "(2::rat) powi (k - 1) \<le> of_int p" "of_int p < (2::rat) powi k"
  proof -
    have "2 ^ nat (k - 1) \<le> p" "p < 2 ^ nat k"
      using bitlen_bounds [OF p] by (simp_all add: k_def)
    then have "(of_int (2 ^ nat (k - 1)) :: rat) \<le> of_int p" "(of_int p :: rat) < of_int (2 ^ nat k)"
      by (simp_all only: of_int_le_iff of_int_less_iff)
    then show "(2::rat) powi (k - 1) \<le> of_int p" "of_int p < (2::rat) powi k"
      using k by (simp_all add: power_int_def)
  qed
  have qb: "(2::rat) powi (l - 1) \<le> of_int q" "of_int q < (2::rat) powi l"
  proof -
    have "2 ^ nat (l - 1) \<le> q" "q < 2 ^ nat l"
      using bitlen_bounds [OF q] by (simp_all add: l_def)
    then have "(of_int (2 ^ nat (l - 1)) :: rat) \<le> of_int q" "(of_int q :: rat) < of_int (2 ^ nat l)"
      by (simp_all only: of_int_le_iff of_int_less_iff)
    then show "(2::rat) powi (l - 1) \<le> of_int q" "of_int q < (2::rat) powi l"
      using l by (simp_all add: power_int_def)
  qed
  have Q: "(0::rat) < of_int q" using q by simp
  have up: "r < 2 powi (k - l + 1)"
  proof -
    have "of_int p < (2::rat) powi (k - l + 1) * 2 powi (l - 1)"
      using pb(2) by (simp flip: power_int_add)
    also have "\<dots> \<le> 2 powi (k - l + 1) * of_int q"
      using qb(1) by (simp add: mult_left_mono)
    finally show ?thesis using Q by (simp add: r pos_divide_less_eq)
  qed
  have lo: "2 powi (k - l - 1) < r"
  proof -
    have "(2::rat) powi (k - l - 1) * of_int q < 2 powi (k - l - 1) * 2 powi l"
      using qb(2) by (simp add: mult_strict_left_mono)
    also have "\<dots> = 2 powi (k - 1)"
      by (simp flip: power_int_add)
    also have "\<dots> \<le> of_int p" by (rule pb(1))
    finally show ?thesis using Q by (simp add: r pos_less_divide_eq)
  qed
  show ?thesis
    using up lo
    by (simp add: floor_log2_def pq pow2_power_int Let_def flip: k_def l_def)
qed

lemma round_ties_even_nearest:
  "\<bar>x - of_int (round_ties_even x)\<bar> \<le> 1 / 2"
  "x - of_int \<lfloor>x\<rfloor> = 1 / 2 \<Longrightarrow> even (round_ties_even x)"
  by (auto simp: round_ties_even_def Let_def abs_if) linarith+

text \<open>
  A number that rounding gives is within half a unit in the last place of the number
  rounded.
\<close>

lemma round_binary32_nearest:
  assumes "round_binary32 r = Finite x"
  shows "\<bar>r - x\<bar> \<le> pow2 (max (floor_log2 \<bar>r\<bar>) (- 126) - 23) / 2"
proof -
  define q where "q = pow2 (max (floor_log2 \<bar>r\<bar>) (- 126) - 23)"
  define n where "n = round_ties_even (\<bar>r\<bar> / q)"
  have q: "0 < q" by (simp add: q_def pow2_pos)
  from assms have x: "x = sgn r * (of_int n * q)"
    by (simp add: round_binary32_def Let_def split: if_splits flip: q_def n_def)
  have "r - x = sgn r * (\<bar>r\<bar> - of_int n * q)"
    using mult_sgn_abs [of r] by (simp add: x algebra_simps)
  then have "\<bar>r - x\<bar> \<le> \<bar>\<bar>r\<bar> - of_int n * q\<bar>"
    by (simp add: abs_mult abs_sgn_eq)
  also have "\<bar>r\<bar> - of_int n * q = q * (\<bar>r\<bar> / q - of_int n)"
    using q by (simp add: algebra_simps)
  also have "\<bar>q * (\<bar>r\<bar> / q - of_int n)\<bar> \<le> q * (1 / 2)"
    using q round_ties_even_nearest(1) [of "\<bar>r\<bar> / q"]
    unfolding abs_mult n_def by (intro mult_mono) simp_all
  finally show ?thesis by (simp add: q_def)
qed

text \<open>
  Rounding gives a value of the format, and so does every operation on values of the
  format.
\<close>

lemma pow2_add: "pow2 (a + b) = pow2 a * pow2 b"
  by (simp add: pow2_power_int power_int_add)

lemma pow2_mono: "a \<le> b \<Longrightarrow> pow2 a \<le> pow2 b"
  by (simp add: pow2_power_int power_int_increasing)

lemma pow2_strict_mono: "a < b \<Longrightarrow> pow2 a < pow2 b"
  by (simp add: pow2_power_int power_int_strict_increasing)

lemma floor_log2_unique:
  assumes "pow2 e \<le> r" "r < pow2 (e + 1)"
  shows "floor_log2 r = e"
proof -
  have r: "0 < r" using pow2_pos [of e] assms(1) by simp
  note b = floor_log2_bounds [OF r]
  have "\<not> floor_log2 r < e"
  proof
    assume "floor_log2 r < e"
    then have "pow2 (floor_log2 r + 1) \<le> pow2 e" by (intro pow2_mono) simp
    with b assms(1) show False by simp
  qed
  moreover have "\<not> e < floor_log2 r"
  proof
    assume "e < floor_log2 r"
    then have "pow2 (e + 1) \<le> pow2 (floor_log2 r)" by (intro pow2_mono) simp
    with b assms(2) show False by simp
  qed
  ultimately show ?thesis by simp
qed

lemma round_ties_even_of_int [simp]: "round_ties_even (of_int n) = n"
  by (simp add: round_ties_even_def)

lemma round_ties_even_floor:
  "\<lfloor>x\<rfloor> \<le> round_ties_even x" "round_ties_even x \<le> \<lceil>x\<rceil>"
proof -
  show "\<lfloor>x\<rfloor> \<le> round_ties_even x"
    by (simp add: round_ties_even_def Let_def)
  have "\<lfloor>x\<rfloor> + 1 \<le> \<lceil>x\<rceil>" if "x - of_int \<lfloor>x\<rfloor> \<noteq> 0"
    using that by (metis ceiling_altdef diff_self order_refl)
  then show "round_ties_even x \<le> \<lceil>x\<rceil>"
    by (auto simp: round_ties_even_def Let_def floor_le_ceiling)
qed

lemma round_ties_even_le: "x \<le> of_int n \<Longrightarrow> round_ties_even x \<le> n"
  using round_ties_even_floor(2) [of x] by (simp add: ceiling_le_iff [symmetric])

lemma round_ties_even_ge: "of_int n \<le> x \<Longrightarrow> n \<le> round_ties_even x"
  using round_ties_even_floor(1) [of x] by (simp add: le_floor_iff [symmetric])

lemma pow2_numeral [simp]: "pow2 0 = 1" "pow2 1 = 2" "pow2 23 = 2 ^ 23" "pow2 24 = 2 ^ 24"
  by (simp_all add: pow2_def)

lemma pow2_diff: "pow2 (a - b) = pow2 a / pow2 b"
  by (simp add: pow2_power_int power_int_diff)

lemma round_binary32_value:
  assumes "r \<noteq> 0"
  shows "is_binary32 (round_binary32 r)"
proof -
  define a where "a = \<bar>r\<bar>"
  define e where "e = max (floor_log2 a) (- 126)"
  define q where "q = pow2 (e - 23)"
  define n where "n = round_ties_even (a / q)"
  define v where "v = of_int n * q"
  have a: "0 < a" using assms by (simp add: a_def)
  have q: "0 < q" by (simp add: q_def pow2_pos)
  have e: "- 126 \<le> e" "floor_log2 a \<le> e" by (simp_all add: e_def)
  have pe: "pow2 e = 2 ^ 23 * q" "pow2 (e + 1) = 2 ^ 24 * q"
    using pow2_add [of "e - 23" 23] pow2_add [of "e - 23" 24]
    by (simp_all add: q_def mult.commute add.commute)
  have "a < pow2 (floor_log2 a + 1)" using floor_log2_bounds [OF a] by simp
  also have "\<dots> \<le> pow2 (e + 1)" using e(2) by (intro pow2_mono) simp
  finally have up: "a / q < 2 ^ 24" using q by (simp add: pe pos_divide_less_eq)
  then have "a / q \<le> of_int (2 ^ 24)" by simp
  then have n24: "n \<le> 2 ^ 24" unfolding n_def by (rule round_ties_even_le)
  have "of_int 0 \<le> a / q" using a q by simp
  then have n0: "0 \<le> n" unfolding n_def by (rule round_ties_even_ge)
  have r: "round_binary32 r =
      (if pow2 128 \<le> v then Infinity (r < 0) else if n = 0 then Zero (r < 0)
       else Finite (sgn r * v))"
    by (simp add: round_binary32_def Let_def flip: a_def e_def q_def n_def v_def)
  show ?thesis
  proof (cases "pow2 128 \<le> v \<or> n = 0")
    case True
    then show ?thesis by (auto simp: r is_binary32_def)
  next
    case False
    then have v128: "v < pow2 128" and n: "0 < n" using n0 by simp_all
    then have v: "0 < v" using q by (simp add: v_def)
    have sv: "\<bar>sgn r * v\<bar> = v" using assms v by (simp add: abs_mult)
    define e' where "e' = max (floor_log2 v) (- 126)"
    have m: "of_int \<lfloor>v / pow2 (e' - 23)\<rfloor> = v / pow2 (e' - 23)"
    proof (cases "floor_log2 a < - 126")
      case True
      then have ee: "e = - 126" by (simp add: e_def)
      have "a < pow2 (floor_log2 a + 1)" using floor_log2_bounds [OF a] by simp
      also have "\<dots> \<le> pow2 e" using True by (intro pow2_mono) (simp add: ee)
      finally have "a / q \<le> of_int (2 ^ 23)" using q by (simp add: pe pos_divide_le_eq)
      then have "n \<le> 2 ^ 23" unfolding n_def by (rule round_ties_even_le)
      then have "(of_int n :: rat) \<le> of_int (2 ^ 23)" by (simp only: of_int_le_iff)
      then have "v \<le> pow2 e" using q by (simp add: v_def pe)
      also have "\<dots> < pow2 (e + 1)" by (intro pow2_strict_mono) simp
      finally have "v < pow2 (e + 1)" .
      moreover have "pow2 (floor_log2 v) \<le> v" using floor_log2_bounds [OF v] by simp
      ultimately have "pow2 (floor_log2 v) < pow2 (e + 1)" by simp
      then have "\<not> e + 1 \<le> floor_log2 v" using pow2_mono [of "e + 1" "floor_log2 v"] by auto
      then have "e' = e" by (simp add: e'_def ee)
      then show ?thesis using q by (simp add: v_def flip: q_def)
    next
      case False
      then have ee: "e = floor_log2 a" by (simp add: e_def)
      have "pow2 e \<le> a" using floor_log2_bounds [OF a] by (simp add: ee)
      then have "of_int (2 ^ 23) \<le> a / q" using q by (simp add: pe pos_le_divide_eq)
      then have "2 ^ 23 \<le> n" unfolding n_def by (rule round_ties_even_ge)
      then have "(of_int (2 ^ 23) :: rat) \<le> of_int n" by (simp only: of_int_le_iff)
      then have lo: "pow2 e \<le> v" using q by (simp add: v_def pe)
      show ?thesis
      proof (cases "n = 2 ^ 24")
        case True
        then have vv: "v = pow2 (e + 1)" by (simp add: v_def pe)
        have "floor_log2 v = e + 1"
          by (rule floor_log2_unique) (simp_all add: vv pow2_strict_mono)
        then have "e' = e + 1" using e(1) by (simp add: e'_def)
        moreover have "pow2 (e + 1 - 23) = 2 * q"
          using pow2_add [of "e - 23" 1] by (simp add: q_def)
        ultimately have "v / pow2 (e' - 23) = of_int (2 ^ 23)"
          using q by (simp add: vv pe)
        then show ?thesis by (simp only: floor_of_int)
      next
        case False
        with n24 have "n < 2 ^ 24" by simp
        then have "(of_int n :: rat) < of_int (2 ^ 24)" by (simp only: of_int_less_iff)
        then have "v < pow2 (e + 1)" using q by (simp add: v_def pe)
        with lo have "floor_log2 v = e" by (rule floor_log2_unique)
        then have "e' = e" using e(1) by (simp add: e'_def)
        then show ?thesis using q by (simp add: v_def flip: q_def)
      qed
    qed
    have "sgn r * v \<noteq> 0" using assms v by (simp add: sgn_eq_0_iff)
    then show ?thesis
      using False v128 m
      by (simp add: r is_binary32_def sv Let_def flip: e'_def)
  qed
qed

lemma is_binary32_neg: "is_binary32 a \<Longrightarrow> is_binary32 (float_neg a)"
  by (cases a) (simp_all add: is_binary32_def)

lemma is_binary32_add:
  "is_binary32 a \<Longrightarrow> is_binary32 b \<Longrightarrow> is_binary32 (float_add a b)"
  by (cases a; cases b) (simp_all add: round_binary32_value, simp_all add: is_binary32_def)

lemma is_binary32_sub:
  "is_binary32 a \<Longrightarrow> is_binary32 b \<Longrightarrow> is_binary32 (float_sub a b)"
  by (simp add: float_sub_def is_binary32_add is_binary32_neg)

lemma is_binary32_mul:
  "is_binary32 a \<Longrightarrow> is_binary32 b \<Longrightarrow> is_binary32 (float_mul a b)"
  by (cases a; cases b) (simp_all add: is_binary32_def round_binary32_value [unfolded is_binary32_def])

lemma is_binary32_div:
  "is_binary32 a \<Longrightarrow> is_binary32 b \<Longrightarrow> is_binary32 (float_div a b)"
  by (cases a; cases b) (simp_all add: is_binary32_def round_binary32_value [unfolded is_binary32_def])

lemma is_binary32_ten: "is_binary32 (s_ten float_storage)"
  by code_simp

text \<open>
  Division by zero gives an infinity with the sign of the quotient, and not a number for
  zero by zero; an infinity is equal to itself and ordered. Results are rounded: a third
  and a tenth are not numbers of the format, \<open>2 ^ 24 + 1\<close> is not either, and ten times
  the greatest number is infinite.
\<close>

lemma float_division_by_zero:
  "float_div (Finite 1) (Zero False) = Infinity False
   \<and> float_div (Finite 1) (Zero True) = Infinity True
   \<and> float_div (Finite (- 1)) (Zero False) = Infinity True
   \<and> float_div (Zero False) (Zero False) = NaN
   \<and> float_eq (Infinity False) (Infinity False)
   \<and> float_lt (Finite 1) (Infinity False)
   \<and> float_lt (Infinity True) (Infinity False)"
  by simp

lemma float_rounding:
  "float_div (Finite 1) (Finite 3) = Finite (11184811 / 33554432)
   \<and> float_div (Finite 1) (Finite 10) = Finite (13421773 / 134217728)
   \<and> float_add (Finite 16777216) (Finite 1) = Finite 16777216
   \<and> float_mul (Finite (340282346638528859811704183484516925440)) (Finite 10) = Infinity False"
  by code_simp

subsection \<open>Claims C7 and C8: addition, subtraction and comparison\<close>

lemma compatible_iff: "compatible s t \<longleftrightarrow> s = t"
proof
  assume "compatible s t"
  then show "s = t"
    by (intro tag_eqI) (rename_tac u, case_tac u, simp_all add: compatible_def ALL_UNITS_def)
next
  assume "s = t"
  then show "compatible s t" by (simp add: compatible_def ALL_UNITS_def)
qed

text \<open>
  Claim C7. The sum and the difference of two quantities exist exactly when the two
  types have the same seven exponents and the same prefix; the result then has the type
  of the operands and the sum (the difference) of the two values in the arithmetic of the
  storage type. With any exponent or the prefix different, no \<open>operator+\<close> or
  \<open>operator-\<close> matches and the program is rejected.
\<close>

theorem addition_requires_same_tag:
  "operator_plus T a b =
     (if compatible (qtag a) (qtag b)
      then (case s_add T (val a) (val b) of
              None \<Rightarrow> Inl StorageFault
            | Some v \<Rightarrow> Inr \<lparr>qtag = qtag a, val = v\<rparr>)
      else Inl NoMatchingFunction)
   \<and> operator_minus T a b =
     (if compatible (qtag a) (qtag b)
      then (case s_sub T (val a) (val b) of
              None \<Rightarrow> Inl StorageFault
            | Some v \<Rightarrow> Inr \<lparr>qtag = qtag a, val = v\<rparr>)
      else Inl NoMatchingFunction)"
  by (simp add: operator_plus_def operator_minus_def compatible_iff and_then_def run_def
      split: option.splits)

theorem addition_requires_same_tag_witness:
  "operator_plus int_storage \<lparr>qtag = (dimensionless 0)\<lparr>t_m := (1, 1)\<rparr>, val = 2\<rparr>
      \<lparr>qtag = (dimensionless 0)\<lparr>t_m := (1, 1)\<rparr>, val = 3\<rparr> =
     Inr \<lparr>qtag = (dimensionless 0)\<lparr>t_m := (1, 1)\<rparr>, val = 5\<rparr>
   \<and> operator_plus int_storage \<lparr>qtag = (dimensionless 0)\<lparr>t_m := (1, 1)\<rparr>, val = 2\<rparr>
      \<lparr>qtag = (dimensionless 3)\<lparr>t_m := (1, 1)\<rparr>, val = 3\<rparr> = Inl NoMatchingFunction
   \<and> operator_minus int_storage \<lparr>qtag = (dimensionless 0)\<lparr>t_m := (1, 1)\<rparr>, val = 2\<rparr>
      \<lparr>qtag = (dimensionless 0)\<lparr>t_m := (1, 1)\<rparr>, val = 3\<rparr> =
     Inr \<lparr>qtag = (dimensionless 0)\<lparr>t_m := (1, 1)\<rparr>, val = - 1\<rparr>
   \<and> operator_minus int_storage \<lparr>qtag = (dimensionless 0)\<lparr>t_m := (1, 1)\<rparr>, val = 2\<rparr>
      \<lparr>qtag = (dimensionless 0)\<lparr>t_s := (1, 1)\<rparr>, val = 3\<rparr> = Inl NoMatchingFunction"
proof -
  let ?M = "(dimensionless 0)\<lparr>t_m := (1, 1)\<rparr>"
  have c: "compatible ?M ?M" "\<not> compatible ?M ((dimensionless 3)\<lparr>t_m := (1, 1)\<rparr>)"
    "\<not> compatible ?M ((dimensionless 0)\<lparr>t_s := (1, 1)\<rparr>)"
    by code_simp+
  have v: "s_add int_storage 2 3 = Some 5" "s_sub int_storage 2 3 = Some (- 1)"
    by code_simp+
  from addition_requires_same_tag [of int_storage "\<lparr>qtag = ?M, val = 2\<rparr>" "\<lparr>qtag = ?M, val = 3\<rparr>"]
    addition_requires_same_tag [of int_storage "\<lparr>qtag = ?M, val = 2\<rparr>"
      "\<lparr>qtag = (dimensionless 3)\<lparr>t_m := (1, 1)\<rparr>, val = 3\<rparr>"]
    addition_requires_same_tag [of int_storage "\<lparr>qtag = ?M, val = 2\<rparr>"
      "\<lparr>qtag = (dimensionless 0)\<lparr>t_s := (1, 1)\<rparr>, val = 3\<rparr>"]
  show ?thesis by (simp add: c v)
qed

text \<open>
  The values of \<open>int\<close> are ordered, and so are the values of \<open>float\<close> other than
  \<open>NaN\<close>, the infinities and the two zeros among them; \<open>==\<close> of \<open>float\<close> is symmetric
  for all values, so that \<open>!=\<close> of quantities is the negation of \<open>==\<close> for both storage
  types, whatever the values.
\<close>

lemma ordered_values_int_storage: "ordered_values int_storage UNIV"
  by (auto simp: ordered_values_def int_storage_def)

lemma float_eq_commute: "float_eq a b = float_eq b a"
  by (cases a; cases b) auto

lemma ordered_values_float_storage: "ordered_values float_storage {x. x \<noteq> NaN}"
  unfolding ordered_values_def
proof (intro conjI ballI impI)
  fix x y z :: binary32
  assume "x \<in> {x. x \<noteq> NaN}" "y \<in> {x. x \<noteq> NaN}" "z \<in> {x. x \<noteq> NaN}"
  then have n: "x \<noteq> NaN" "y \<noteq> NaN" "z \<noteq> NaN" by simp_all
  show "s_eq float_storage x x"
    using n by (cases x) (simp_all add: float_storage_def)
  show "s_eq float_storage y x" if "s_eq float_storage x y"
    using that by (simp add: float_storage_def float_eq_commute)
  show "s_eq float_storage x z" if "s_eq float_storage x y \<and> s_eq float_storage y z"
    using that by (cases x; cases y; cases z) (simp_all add: float_storage_def)
  show "\<not> s_lt float_storage x x"
    by (cases x) (simp_all add: float_storage_def)
  show "s_lt float_storage x z" if "s_lt float_storage x y \<and> s_lt float_storage y z"
    using that by (cases x; cases y; cases z) (auto simp: float_storage_def)
  show "\<not> s_eq float_storage x y" if "s_lt float_storage x y"
    using that by (cases x; cases y) (auto simp: float_storage_def)
  show "s_lt float_storage x y \<or> s_eq float_storage x y \<or> s_lt float_storage y x"
    using n by (cases x; cases y) (auto simp: float_storage_def)
qed

lemma operator_ne_negates_operator_eq:
  "operator_ne int_storage a b = and_then (operator_eq int_storage a b) (\<lambda>e. Inr (\<not> e))"
  "operator_ne float_storage x y = and_then (operator_eq float_storage x y) (\<lambda>e. Inr (\<not> e))"
  by (auto simp: operator_ne_def operator_eq_def and_then_def int_storage_def float_storage_def
      float_eq_commute)

lemma ordered_values_subset: "ordered_values T V \<Longrightarrow> W \<subseteq> V \<Longrightarrow> ordered_values T W"
  unfolding ordered_values_def by (meson subsetD)

text \<open>
  Claim C8, as amended. The six comparisons exist exactly for two quantities of one type
  and compare the two values with \<open>==\<close> and \<open><\<close> of the storage type: \<open>!=\<close> negates
  \<open>==\<close>, which it applies to the operands exchanged, so that \<open>a != b\<close> is the negation
  of \<open>a == b\<close> wherever \<open>==\<close> of the storage type gives the same for the two values in
  either order; \<open><=\<close> is \<open><\<close> or \<open>==\<close>, \<open>>\<close> is \<open><\<close> with the operands exchanged,
  \<open>>=\<close> is \<open>>\<close> or \<open>==\<close>. For quantities whose values are in a set of values among
  which \<open>==\<close> of the storage type is an equivalence and \<open><\<close> a strict total order,
  \<open>==\<close> of quantities is reflexive, symmetric and transitive, \<open><\<close> is irreflexive and
  transitive, and of \<open>a < b\<close>, \<open>a == b\<close>, \<open>b < a\<close> exactly one holds for quantities of
  one type.
\<close>

theorem comparison_of_raw_values:
  "(qtag a = qtag b \<longrightarrow>
      operator_eq T a b = Inr (s_eq T (val a) (val b)) \<and>
      operator_lt T a b = Inr (s_lt T (val a) (val b)) \<and>
      operator_ne T a b = Inr (\<not> s_eq T (val b) (val a)) \<and>
      operator_le T a b = Inr (s_lt T (val a) (val b) \<or> s_eq T (val a) (val b)) \<and>
      operator_gt T a b = Inr (s_lt T (val b) (val a)) \<and>
      operator_ge T a b = Inr (s_lt T (val b) (val a) \<or> s_eq T (val a) (val b)))
   \<and> (qtag a \<noteq> qtag b \<longrightarrow>
      operator_eq T a b = Inl NoMatchingFunction \<and> operator_lt T a b = Inl NoMatchingFunction \<and>
      operator_ne T a b = Inl NoMatchingFunction \<and> operator_le T a b = Inl NoMatchingFunction \<and>
      operator_gt T a b = Inl NoMatchingFunction \<and> operator_ge T a b = Inl NoMatchingFunction)
   \<and> (s_eq T (val b) (val a) = s_eq T (val a) (val b) \<longrightarrow>
      operator_ne T a b = and_then (operator_eq T a b) (\<lambda>e. Inr (\<not> e)))
   \<and> (ordered_values T V \<and> val a \<in> V \<and> val b \<in> V \<and> val c \<in> V \<longrightarrow>
      operator_eq T a a = Inr True \<and>
      operator_lt T a a = Inr False \<and>
      (operator_eq T a b = Inr True \<longrightarrow> operator_eq T b a = Inr True) \<and>
      (operator_eq T a b = Inr True \<and> operator_eq T b c = Inr True \<longrightarrow>
         operator_eq T a c = Inr True) \<and>
      (operator_lt T a b = Inr True \<and> operator_lt T b c = Inr True \<longrightarrow>
         operator_lt T a c = Inr True) \<and>
      (qtag a = qtag b \<longrightarrow>
         operator_ne T a b = Inr (\<not> s_eq T (val a) (val b)) \<and>
         (operator_lt T a b = Inr True \<or> operator_eq T a b = Inr True \<or>
          operator_lt T b a = Inr True) \<and>
         \<not> (operator_lt T a b = Inr True \<and> operator_eq T a b = Inr True) \<and>
         \<not> (operator_lt T a b = Inr True \<and> operator_lt T b a = Inr True) \<and>
         \<not> (operator_eq T a b = Inr True \<and> operator_lt T b a = Inr True)))"
proof (intro conjI impI)
  assume "ordered_values T V \<and> val a \<in> V \<and> val b \<in> V \<and> val c \<in> V"
  then have t: "ordered_values T V" and V: "val a \<in> V" "val b \<in> V" "val c \<in> V"
    by simp_all
  from t have refl: "\<And>x. x \<in> V \<Longrightarrow> s_eq T x x"
    and sym: "\<And>x y. x \<in> V \<Longrightarrow> y \<in> V \<Longrightarrow> s_eq T x y \<Longrightarrow> s_eq T y x"
    and trans: "\<And>x y z. x \<in> V \<Longrightarrow> y \<in> V \<Longrightarrow> z \<in> V \<Longrightarrow> s_eq T x y \<Longrightarrow> s_eq T y z \<Longrightarrow> s_eq T x z"
    and irrefl: "\<And>x. x \<in> V \<Longrightarrow> \<not> s_lt T x x"
    and ltrans: "\<And>x y z. x \<in> V \<Longrightarrow> y \<in> V \<Longrightarrow> z \<in> V \<Longrightarrow> s_lt T x y \<Longrightarrow> s_lt T y z \<Longrightarrow> s_lt T x z"
    and lt_ne: "\<And>x y. x \<in> V \<Longrightarrow> y \<in> V \<Longrightarrow> s_lt T x y \<Longrightarrow> \<not> s_eq T x y"
    and total: "\<And>x y. x \<in> V \<Longrightarrow> y \<in> V \<Longrightarrow> s_lt T x y \<or> s_eq T x y \<or> s_lt T y x"
    unfolding ordered_values_def by blast+
  show "operator_eq T a a = Inr True" by (simp add: operator_eq_def refl V)
  show "operator_lt T a a = Inr False" by (simp add: operator_lt_def irrefl V)
  show "operator_eq T b a = Inr True" if "operator_eq T a b = Inr True"
    using that sym [OF V(1,2)] by (auto simp: operator_eq_def split: if_splits)
  show "operator_eq T a c = Inr True"
    if "operator_eq T a b = Inr True \<and> operator_eq T b c = Inr True"
    using that trans [OF V] by (auto simp: operator_eq_def split: if_splits)
  show "operator_lt T a c = Inr True"
    if "operator_lt T a b = Inr True \<and> operator_lt T b c = Inr True"
    using that ltrans [OF V] by (auto simp: operator_lt_def split: if_splits)
  show "operator_ne T a b = Inr (\<not> s_eq T (val a) (val b))" if "qtag a = qtag b"
    using that sym [OF V(1,2)] sym [OF V(2,1)]
    by (auto simp: operator_ne_def operator_eq_def and_then_def)
  show "operator_lt T a b = Inr True \<or> operator_eq T a b = Inr True \<or>
          operator_lt T b a = Inr True" if "qtag a = qtag b"
    using that total [OF V(1,2)] by (auto simp: operator_lt_def operator_eq_def)
  show "\<not> (operator_lt T a b = Inr True \<and> operator_eq T a b = Inr True)" if "qtag a = qtag b"
    using that lt_ne [OF V(1,2)] by (auto simp: operator_lt_def operator_eq_def)
  show "\<not> (operator_lt T a b = Inr True \<and> operator_lt T b a = Inr True)" if "qtag a = qtag b"
    using that ltrans [OF V(1,2,1)] irrefl [OF V(1)] by (auto simp: operator_lt_def)
  show "\<not> (operator_eq T a b = Inr True \<and> operator_lt T b a = Inr True)" if "qtag a = qtag b"
    using that lt_ne [OF V(2,1)] sym [OF V(1,2)] by (auto simp: operator_lt_def operator_eq_def)
next
  assume "s_eq T (val b) (val a) = s_eq T (val a) (val b)"
  then show "operator_ne T a b = and_then (operator_eq T a b) (\<lambda>e. Inr (\<not> e))"
    by (auto simp: operator_ne_def operator_eq_def and_then_def)
qed (simp_all add: operator_eq_def operator_lt_def operator_ne_def operator_le_def
    operator_gt_def operator_ge_def and_then_def)

theorem comparison_of_raw_values_witness:
  "ordered_values int_storage UNIV
   \<and> operator_eq int_storage \<lparr>qtag = dimensionless 0, val = 2\<rparr> \<lparr>qtag = dimensionless 0, val = 2\<rparr>
       = Inr True
   \<and> operator_lt int_storage \<lparr>qtag = dimensionless 0, val = 2\<rparr> \<lparr>qtag = dimensionless 0, val = 3\<rparr>
       = Inr True
   \<and> operator_ne int_storage \<lparr>qtag = dimensionless 0, val = 2\<rparr> \<lparr>qtag = dimensionless 0, val = 3\<rparr>
       = Inr True
   \<and> operator_le int_storage \<lparr>qtag = dimensionless 0, val = 2\<rparr> \<lparr>qtag = dimensionless 0, val = 3\<rparr>
       = Inr True
   \<and> operator_gt int_storage \<lparr>qtag = dimensionless 0, val = 2\<rparr> \<lparr>qtag = dimensionless 0, val = 3\<rparr>
       = Inr False
   \<and> operator_ge int_storage \<lparr>qtag = dimensionless 0, val = 2\<rparr> \<lparr>qtag = dimensionless 0, val = 3\<rparr>
       = Inr False
   \<and> operator_eq int_storage \<lparr>qtag = dimensionless 0, val = 2\<rparr> \<lparr>qtag = dimensionless 3, val = 2\<rparr>
       = Inl NoMatchingFunction
   \<and> ordered_values float_storage {x. x \<noteq> NaN}
   \<and> operator_eq float_storage \<lparr>qtag = dimensionless 0, val = Infinity False\<rparr>
        \<lparr>qtag = dimensionless 0, val = Infinity False\<rparr> = Inr True
   \<and> operator_lt float_storage \<lparr>qtag = dimensionless 0, val = Infinity False\<rparr>
        \<lparr>qtag = dimensionless 0, val = Infinity False\<rparr> = Inr False
   \<and> operator_lt float_storage \<lparr>qtag = dimensionless 0, val = Finite 2\<rparr>
        \<lparr>qtag = dimensionless 0, val = Infinity False\<rparr> = Inr True
   \<and> operator_ne float_storage \<lparr>qtag = dimensionless 0, val = NaN\<rparr>
        \<lparr>qtag = dimensionless 0, val = NaN\<rparr> = Inr True"
proof -
  let ?a = "\<lparr>qtag = dimensionless 0, val = 2::int\<rparr>"
  let ?b = "\<lparr>qtag = dimensionless 0, val = 3::int\<rparr>"
  let ?c = "\<lparr>qtag = dimensionless 3, val = 2::int\<rparr>"
  let ?x = "\<lparr>qtag = dimensionless 0, val = Infinity False\<rparr>"
  let ?y = "\<lparr>qtag = dimensionless 0, val = Finite 2\<rparr>"
  let ?n = "\<lparr>qtag = dimensionless 0, val = NaN\<rparr>"
  have t: "qtag ?a = qtag ?b" "qtag ?a \<noteq> qtag ?c"
    by (simp_all add: dimensionless_def)
  have v: "s_lt int_storage 2 3" "\<not> s_lt int_storage 3 2" "\<not> s_eq int_storage 2 3"
    "\<not> s_eq int_storage 3 2"
    by (simp_all add: int_storage_def)
  have f: "s_lt float_storage (Finite 2) (Infinity False)"
    "s_eq float_storage NaN NaN = s_eq float_storage NaN NaN"
    "\<not> s_eq float_storage NaN NaN"
    by (simp_all add: float_storage_def)
  have V: "val ?x \<in> {x. x \<noteq> NaN}" "val ?y \<in> {x. x \<noteq> NaN}"
    by simp_all
  from comparison_of_raw_values [of ?a ?b int_storage UNIV ?a]
    comparison_of_raw_values [of ?a ?c int_storage UNIV ?a]
    ordered_values_int_storage t v
  have 1: "operator_eq int_storage ?a ?a = Inr True"
    "operator_lt int_storage ?a ?b = Inr True"
    "operator_ne int_storage ?a ?b = Inr True"
    "operator_le int_storage ?a ?b = Inr True"
    "operator_gt int_storage ?a ?b = Inr False"
    "operator_ge int_storage ?a ?b = Inr False"
    "operator_eq int_storage ?a ?c = Inl NoMatchingFunction"
    by simp_all
  from comparison_of_raw_values [of ?x ?y float_storage "{x. x \<noteq> NaN}" ?x]
    ordered_values_float_storage V
  have 2: "operator_eq float_storage ?x ?x = Inr True"
    "operator_lt float_storage ?x ?x = Inr False"
    by simp_all
  from comparison_of_raw_values [of ?y ?x float_storage "{x. x \<noteq> NaN}" ?x] f
  have 3: "operator_lt float_storage ?y ?x = Inr True"
    by simp
  from comparison_of_raw_values [of ?n ?n float_storage "{}" ?n] f
  have 4: "operator_ne float_storage ?n ?n = Inr True"
    by simp
  from 1 2 3 4 ordered_values_int_storage ordered_values_float_storage
  show ?thesis by simp
qed

text \<open>
  Claim C8 as stated, for all values of the storage type, fails for the default storage
  type \<open>float\<close>: the quotient of zero by zero is not a number, it is not equal to itself,
  and it is neither less than, equal to nor greater than one.
\<close>

theorem comparison_nan_counterexample:
  "operator_divide float_storage \<lparr>qtag = dimensionless 0, val = Zero False\<rparr>
      \<lparr>qtag = dimensionless 0, val = Zero False\<rparr> = Inr \<lparr>qtag = dimensionless 0, val = NaN\<rparr>
   \<and> operator_eq float_storage \<lparr>qtag = dimensionless 0, val = NaN\<rparr>
      \<lparr>qtag = dimensionless 0, val = NaN\<rparr> = Inr False
   \<and> operator_lt float_storage \<lparr>qtag = dimensionless 0, val = NaN\<rparr>
      \<lparr>qtag = dimensionless 0, val = Finite 1\<rparr> = Inr False
   \<and> operator_eq float_storage \<lparr>qtag = dimensionless 0, val = NaN\<rparr>
      \<lparr>qtag = dimensionless 0, val = Finite 1\<rparr> = Inr False
   \<and> operator_lt float_storage \<lparr>qtag = dimensionless 0, val = Finite 1\<rparr>
      \<lparr>qtag = dimensionless 0, val = NaN\<rparr> = Inr False"
  by code_simp

subsection \<open>Claims C1 and C10: the operators with a bare number and the compound assignments\<close>

lemma reduced_tag_exponent:
  "reduced_tag t \<Longrightarrow> lowest_terms (exponent t u) \<and> fits (exponent t u)"
  by (cases u) (simp_all add: reduced_tag_def ALL_UNITS_def)

lemma reduced_tag_instantiable:
  assumes "reduced_tag t"
  shows "instantiable t"
proof (rule instantiable_lowest_terms)
  fix u
  show "lowest_terms (exponent t u)"
    using reduced_tag_exponent [OF assms, of u] by simp
next
  show "tag_representable t"
    using assms by (simp add: reduced_tag_def tag_representable_def list_all_iff)
qed

lemma rat_of_zero [simp]: "rat_of (0, 1) = 0"
  by (simp add: rat_of_def Zero_rat_def)

lemma addFrac_zero: "lowest_terms x \<Longrightarrow> addFrac x (0, 1) = x"
  by (simp add: addFrac_quotient_of lowest_terms_def quotient_of_lowest_terms)

lemma subFrac_zero: "lowest_terms x \<Longrightarrow> subFrac x (0, 1) = x"
  by (simp add: subFrac_quotient_of lowest_terms_def quotient_of_lowest_terms)

lemma exponent_dimensionless [simp]: "exponent (dimensionless p) u = (0, 1)"
  by (cases u) (simp_all add: dimensionless_def)

lemma combine_dimensionless:
  assumes "reduced_tag t"
  shows "combine_under_multiply t (dimensionless p) = t\<lparr>t_pref := t_pref t + p\<rparr>"
    and "combine_under_divide t (dimensionless p) = t\<lparr>t_pref := t_pref t - p\<rparr>"
proof -
  show "combine_under_multiply t (dimensionless p) = t\<lparr>t_pref := t_pref t + p\<rparr>"
    using reduced_tag_exponent [OF assms]
    by (intro tag_eqI)
      (simp_all add: exponent_combine_under_multiply addFrac_zero,
        simp add: combine_under_multiply_def dimensionless_def)
  show "combine_under_divide t (dimensionless p) = t\<lparr>t_pref := t_pref t - p\<rparr>"
    using reduced_tag_exponent [OF assms]
    by (intro tag_eqI)
      (simp_all add: exponent_combine_under_divide subFrac_zero,
        simp add: combine_under_divide_def dimensionless_def)
qed

lemma tag_representable_update_pref:
  "reduced_tag t \<Longrightarrow> tag_representable (t\<lparr>t_pref := p\<rparr>) \<longleftrightarrow> representable p"
  by (auto simp: tag_representable_def reduced_tag_def list_all_iff)

text \<open>
  For every type with exponents in lowest terms: multiplying by a bare number gives what
  multiplying by the number wrapped as a dimensionless quantity of prefix 0 gives, but
  dividing by a bare number wraps the number as a dimensionless quantity of the prefix of
  the quantity (\<open>ScalarType\<close>), so the quotient has prefix 0, and not the prefix of the
  quantity, which dividing by the number wrapped at prefix 0 gives.
\<close>

lemma operator_times_scalar_wrapped:
  assumes "reduced_tag (qtag q)"
  shows "operator_times_scalar T q s = operator_times T q \<lparr>qtag = dimensionless 0, val = s\<rparr>"
proof -
  have c: "combine_under_multiply (qtag q) (dimensionless 0) = qtag q"
    using combine_dimensionless(1) [OF assms, of 0] by simp
  have r: "tag_representable (qtag q)"
    using tag_representable_update_pref [OF assms, of "t_pref (qtag q)"] assms
    by (simp add: reduced_tag_def)
  have "operator_times T q \<lparr>qtag = dimensionless 0, val = s\<rparr> =
      (case s_mul T (val q) s of
         None \<Rightarrow> Inl StorageFault
       | Some v \<Rightarrow> Inr \<lparr>qtag = qtag q, val = v\<rparr>)"
    using operator_times_eq [of q "\<lparr>qtag = dimensionless 0, val = s\<rparr>" T]
      reduced_tag_instantiable [OF assms] instantiable_dimensionless [of 0]
    by (simp add: c r split: option.splits)
  then show ?thesis
    by (simp add: operator_times_scalar_def and_then_def run_def split: option.splits)
qed

lemma operator_divide_wrapped:
  assumes "reduced_tag (qtag q)"
  shows "operator_divide T q \<lparr>qtag = dimensionless 0, val = s\<rparr> =
           (case s_div T (val q) s of
              None \<Rightarrow> Inl StorageFault
            | Some v \<Rightarrow> Inr \<lparr>qtag = qtag q, val = v\<rparr>)"
proof -
  have c: "combine_under_divide (qtag q) (dimensionless 0) = qtag q"
    using combine_dimensionless(2) [OF assms, of 0] by simp
  have r: "tag_representable (qtag q)"
    using tag_representable_update_pref [OF assms, of "t_pref (qtag q)"] assms
    by (simp add: reduced_tag_def)
  show ?thesis
    using operator_divide_eq [of q "\<lparr>qtag = dimensionless 0, val = s\<rparr>" T]
      reduced_tag_instantiable [OF assms] instantiable_dimensionless [of 0]
    by (simp add: c r split: option.splits)
qed

lemma operator_divide_scalar_prefix_zero:
  assumes "reduced_tag (qtag q)"
  shows "operator_divide_scalar T q s =
           (case s_div T (val q) s of
              None \<Rightarrow> Inl StorageFault
            | Some v \<Rightarrow> Inr \<lparr>qtag = (qtag q)\<lparr>t_pref := 0\<rparr>, val = v\<rparr>)"
proof -
  have c: "combine_under_divide (qtag q) (dimensionless (t_pref (qtag q))) = (qtag q)\<lparr>t_pref := 0\<rparr>"
    using combine_dimensionless(2) [OF assms, of "t_pref (qtag q)"] by simp
  have r: "tag_representable ((qtag q)\<lparr>t_pref := 0\<rparr>)"
    using tag_representable_update_pref [OF assms, of 0]
    by (simp add: representable_def INTMAX_MIN_def INTMAX_MAX_def)
  show ?thesis
    using operator_divide_eq [of q "\<lparr>qtag = dimensionless (t_pref (qtag q)), val = s\<rparr>" T]
      reduced_tag_instantiable [OF assms] instantiable_dimensionless [of "t_pref (qtag q)"]
    by (simp add: operator_divide_scalar_def ScalarType_def c r split: option.splits)
qed

lemma scalar_divide_operator_prefix_zero:
  assumes "instantiable (qtag q)" "scalar_divide_operator T s q = Inr r"
  shows "t_pref (qtag r) = 0"
proof -
  have "t_pref (combine_under_divide (dimensionless (t_pref (qtag q))) (qtag q)) = 0"
    by (simp add: combine_under_divide_def dimensionless_def)
  then show ?thesis
    using assms(2) operator_divide_eq [of "\<lparr>qtag = dimensionless (t_pref (qtag q)), val = s\<rparr>" q T]
      assms(1) instantiable_dimensionless [of "t_pref (qtag q)"]
    by (auto simp: scalar_divide_operator_def ScalarType_def split: if_splits option.splits)
qed

text \<open>
  Claim C1 says that \<open>q / s\<close> has the prefix of \<open>q\<close> and \<open>s / q\<close> the negated prefix of
  \<open>q\<close>, as wrapping \<open>s\<close> at prefix 0 would give. Evaluated for 6 at prefix 3 and the
  number 2 with the storage type \<open>int\<close>: \<open>q / s\<close> and \<open>s / q\<close> both come out at prefix 0,
  while the division by (of) the number wrapped at prefix 0 comes out at prefix 3 (-3), and
  while \<open>q * s\<close> keeps prefix 3.
\<close>

theorem scalar_division_drops_prefix:
  "operator_divide_scalar int_storage \<lparr>qtag = (dimensionless 3)\<lparr>t_m := (1, 1)\<rparr>, val = 6\<rparr> 2 =
     Inr \<lparr>qtag = (dimensionless 0)\<lparr>t_m := (1, 1)\<rparr>, val = 3\<rparr>
   \<and> operator_divide int_storage \<lparr>qtag = (dimensionless 3)\<lparr>t_m := (1, 1)\<rparr>, val = 6\<rparr>
       \<lparr>qtag = dimensionless 0, val = 2\<rparr> =
     Inr \<lparr>qtag = (dimensionless 3)\<lparr>t_m := (1, 1)\<rparr>, val = 3\<rparr>
   \<and> scalar_divide_operator int_storage 6 \<lparr>qtag = (dimensionless 3)\<lparr>t_m := (1, 1)\<rparr>, val = 2\<rparr> =
     Inr \<lparr>qtag = (dimensionless 0)\<lparr>t_m := (- 1, 1)\<rparr>, val = 3\<rparr>
   \<and> operator_divide int_storage \<lparr>qtag = dimensionless 0, val = 6\<rparr>
       \<lparr>qtag = (dimensionless 3)\<lparr>t_m := (1, 1)\<rparr>, val = 2\<rparr> =
     Inr \<lparr>qtag = (dimensionless (- 3))\<lparr>t_m := (- 1, 1)\<rparr>, val = 3\<rparr>
   \<and> operator_times_scalar int_storage \<lparr>qtag = (dimensionless 3)\<lparr>t_m := (1, 1)\<rparr>, val = 6\<rparr> 2 =
     Inr \<lparr>qtag = (dimensionless 3)\<lparr>t_m := (1, 1)\<rparr>, val = 12\<rparr>
   \<and> scalar_times_operator int_storage 2 \<lparr>qtag = (dimensionless 3)\<lparr>t_m := (1, 1)\<rparr>, val = 6\<rparr> =
     Inr \<lparr>qtag = (dimensionless 3)\<lparr>t_m := (1, 1)\<rparr>, val = 12\<rparr>"
  by code_simp

text \<open>
  The compound assignments. \<open>+=\<close>, \<open>-=\<close> and \<open>*=\<close> with a bare number are the binary
  operator followed by the assignment, for every type. The three others assign a result
  whose prefix is 0 (both \<open>/=\<close>) or twice the prefix (\<open>*=\<close> with a \<open>ScalarType\<close>): with
  a prefix other than 0 the assignment has no matching function.
\<close>

lemma operator_plus_assign_eq:
  "qtag rhs = qtag this \<Longrightarrow> operator_plus_assign T this rhs = operator_plus T this rhs"
  by (simp add: operator_plus_assign_def assign_def and_then_def)

lemma operator_minus_assign_eq:
  "qtag rhs = qtag this \<Longrightarrow> operator_minus_assign T this rhs = operator_minus T this rhs"
  by (simp add: operator_minus_assign_def assign_def and_then_def)

lemma operator_times_assign_eq:
  "operator_times_assign T this rhs = operator_times_scalar T this rhs"
  by (simp add: operator_times_assign_def assign_def and_then_def)

lemma operator_divide_assign_eq:
  assumes "reduced_tag (qtag this)"
  shows "operator_divide_assign T this rhs =
           (if t_pref (qtag this) = 0 then operator_divide_scalar T this rhs
            else Inl NoMatchingFunction)"
proof -
  have c: "combine_under_divide (qtag this) (dimensionless (t_pref (qtag this))) =
      (qtag this)\<lparr>t_pref := 0\<rparr>"
    using combine_dimensionless(2) [OF assms, of "t_pref (qtag this)"] by simp
  have r: "tag_representable ((qtag this)\<lparr>t_pref := 0\<rparr>)"
    using tag_representable_update_pref [OF assms, of 0]
    by (simp add: representable_def INTMAX_MIN_def INTMAX_MAX_def)
  have ty: "divide_type (qtag this) (ScalarType (qtag this)) = Inr ((qtag this)\<lparr>t_pref := 0\<rparr>)"
    using divide_type_eq [OF reduced_tag_instantiable [OF assms]
        instantiable_dimensionless [of "t_pref (qtag this)"]]
    by (simp add: ScalarType_def c r)
  have "(qtag this)\<lparr>t_pref := 0\<rparr> = qtag this \<longleftrightarrow> t_pref (qtag this) = 0"
    by (cases "qtag this") auto
  then show ?thesis
    by (simp add: operator_divide_assign_def assign_def and_then_def ty)
qed

text \<open>
  Claim C10 says that \<open>a /= s\<close> and, for a dimensionless \<open>s\<close> of the prefix of \<open>a\<close>,
  \<open>a *= s\<close> and \<open>a /= s\<close> leave \<open>a\<close> with the value of \<open>a / s\<close> (\<open>a * s\<close>) in the type
  of \<open>a\<close>. Evaluated for 6 at prefix 3 with the storage type \<open>int\<close>: the three do not
  compile, while \<open>+=\<close>, \<open>-=\<close> and \<open>*=\<close> with a bare number do what the claim says; at
  prefix 0 all six do.
\<close>

theorem compound_assignment_at_prefix:
  "operator_divide_assign int_storage \<lparr>qtag = (dimensionless 3)\<lparr>t_m := (1, 1)\<rparr>, val = 6\<rparr> 2 =
     Inl NoMatchingFunction
   \<and> operator_times_assign_Scalar int_storage \<lparr>qtag = (dimensionless 3)\<lparr>t_m := (1, 1)\<rparr>, val = 6\<rparr>
       \<lparr>qtag = ScalarType ((dimensionless 3)\<lparr>t_m := (1, 1)\<rparr>), val = 2\<rparr> = Inl NoMatchingFunction
   \<and> operator_divide_assign_Scalar int_storage \<lparr>qtag = (dimensionless 3)\<lparr>t_m := (1, 1)\<rparr>, val = 6\<rparr>
       \<lparr>qtag = ScalarType ((dimensionless 3)\<lparr>t_m := (1, 1)\<rparr>), val = 2\<rparr> = Inl NoMatchingFunction
   \<and> operator_times_assign int_storage \<lparr>qtag = (dimensionless 3)\<lparr>t_m := (1, 1)\<rparr>, val = 6\<rparr> 2 =
     Inr \<lparr>qtag = (dimensionless 3)\<lparr>t_m := (1, 1)\<rparr>, val = 12\<rparr>
   \<and> operator_plus_assign int_storage \<lparr>qtag = (dimensionless 3)\<lparr>t_m := (1, 1)\<rparr>, val = 6\<rparr>
       \<lparr>qtag = (dimensionless 3)\<lparr>t_m := (1, 1)\<rparr>, val = 2\<rparr> =
     Inr \<lparr>qtag = (dimensionless 3)\<lparr>t_m := (1, 1)\<rparr>, val = 8\<rparr>
   \<and> operator_minus_assign int_storage \<lparr>qtag = (dimensionless 3)\<lparr>t_m := (1, 1)\<rparr>, val = 6\<rparr>
       \<lparr>qtag = (dimensionless 3)\<lparr>t_m := (1, 1)\<rparr>, val = 2\<rparr> =
     Inr \<lparr>qtag = (dimensionless 3)\<lparr>t_m := (1, 1)\<rparr>, val = 4\<rparr>
   \<and> operator_divide_assign int_storage \<lparr>qtag = (dimensionless 0)\<lparr>t_m := (1, 1)\<rparr>, val = 6\<rparr> 2 =
     Inr \<lparr>qtag = (dimensionless 0)\<lparr>t_m := (1, 1)\<rparr>, val = 3\<rparr>
   \<and> operator_times_assign_Scalar int_storage \<lparr>qtag = (dimensionless 0)\<lparr>t_m := (1, 1)\<rparr>, val = 6\<rparr>
       \<lparr>qtag = ScalarType ((dimensionless 0)\<lparr>t_m := (1, 1)\<rparr>), val = 2\<rparr> =
     Inr \<lparr>qtag = (dimensionless 0)\<lparr>t_m := (1, 1)\<rparr>, val = 12\<rparr>
   \<and> operator_divide_assign_Scalar int_storage \<lparr>qtag = (dimensionless 0)\<lparr>t_m := (1, 1)\<rparr>, val = 6\<rparr>
       \<lparr>qtag = ScalarType ((dimensionless 0)\<lparr>t_m := (1, 1)\<rparr>), val = 2\<rparr> =
     Inr \<lparr>qtag = (dimensionless 0)\<lparr>t_m := (1, 1)\<rparr>, val = 3\<rparr>"
  by code_simp

end
